theory Spec2Isabelle
  imports Main
begin

section \<open>The icon generator \<^verbatim>\<open>generate_icons.py\<close>\<close>

text \<open>
  The script loads one image, crops it to a centred square when it is not square,
  converts it to mode \<^verbatim>\<open>RGBA\<close> when it is in another mode, and writes five resized
  copies as PNG files below a fixed directory. Everything it does goes through the image
  library (Pillow), the operating system and the console, so the model below is a
  state-and-exception embedding: a computation takes the world and returns either a
  value or the exception that was raised, together with the world as it is then.
\<close>

subsection \<open>Images and the library operations on them\<close>

type_synonym path = string

type_synonym box = "int \<times> int \<times> int \<times> int"

datatype resampling = NEAREST | BILINEAR | BICUBIC | LANCZOS

text \<open>
  The pixel data of an image is kept symbolically: the data decoded from a file, or the
  result of one of the three library operations on other pixel data. No property of the
  library's arithmetic on pixels is assumed beyond that.
\<close>

datatype pixels =
    Original nat
  | CropPx pixels box
  | ConvertPx pixels string
  | ResizePx pixels "int \<times> int" resampling

text \<open>An image as the script sees it: \<^verbatim>\<open>img.size\<close>, \<^verbatim>\<open>img.mode\<close> and the pixel data.\<close>

record image =
  size_px :: "int \<times> int"
  mode :: string
  pixels :: pixels

text \<open>
  What the library documents for the three operations: \<^verbatim>\<open>crop((l, t, r, b))\<close> returns
  an image of \<open>r - l\<close> by \<open>b - t\<close> pixels in the same mode, \<^verbatim>\<open>convert(m)\<close> an image of
  the same size in mode \<open>m\<close>, and \<^verbatim>\<open>resize(sz, filter)\<close> an image of size \<open>sz\<close> in the
  same mode. Each returns a new image and leaves its argument as it was.
\<close>

definition crop :: "image \<Rightarrow> box \<Rightarrow> image" where
  "crop img bx =
     (case bx of (left, top', right, bottom) \<Rightarrow>
        \<lparr>size_px = (right - left, bottom - top'), mode = mode img,
         pixels = CropPx (pixels img) bx\<rparr>)"

definition convert :: "image \<Rightarrow> string \<Rightarrow> image" where
  "convert img m = \<lparr>size_px = size_px img, mode = m, pixels = ConvertPx (pixels img) m\<rparr>"

definition resize :: "image \<Rightarrow> int \<times> int \<Rightarrow> resampling \<Rightarrow> image" where
  "resize img sz flt = \<lparr>size_px = sz, mode = mode img, pixels = ResizePx (pixels img) sz flt\<rparr>"

text \<open>
  The modes of the library that carry an alpha band (\<^verbatim>\<open>A\<close> or the premultiplied
  \<^verbatim>\<open>a\<close> in \<^verbatim>\<open>getbands()\<close>).
\<close>

definition alpha_capable :: "string \<Rightarrow> bool" where
  "alpha_capable m = (m \<in> set [''RGBA'', ''LA'', ''PA'', ''RGBa'', ''La''])"

subsection \<open>The world: files, directories, console, and the calls made\<close>

record disk_file =
  format :: string
  picture :: image

text \<open>Every call that leaves the script, with its arguments.\<close>

datatype call =
    Open path
  | Crop image box
  | Convert image string
  | Makedirs path
  | Resize image "int \<times> int" resampling
  | Save image path string

text \<open>
  The lines the script prints. The texts are Chinese in the source; the model keeps
  which \<^verbatim>\<open>print\<close> statement produced a line and the values formatted into it.
\<close>

datatype line =
    Msg_reading path                \<comment> \<open>line 30: reading image \<open>{input_image_path}\<close>\<close>
  | Msg_not_square int int          \<comment> \<open>line 39: warning, not square \<open>({width}x{height})\<close>\<close>
  | Msg_will_crop                   \<comment> \<open>line 40: will crop to a square\<close>
  | Msg_cropped int                 \<comment> \<open>line 49: cropped to \<open>{size}x{size}\<close>\<close>
  | Msg_generated string int        \<comment> \<open>line 69: \<open>[OK]\<close> generated \<open>{folder}/ic_launcher.png ({size}x{size})\<close>\<close>
  | Msg_all_done                    \<comment> \<open>line 71: \<open>[OK]\<close> all icons generated\<close>
  | Msg_saved_to string             \<comment> \<open>line 72: icons saved to \<open>{BASE_DIR}\<close>\<close>
  | Msg_not_found path              \<comment> \<open>line 75: error, cannot find image file \<open>'{input_image_path}'\<close>\<close>
  | Msg_ensure_exists               \<comment> \<open>line 76: make sure the image file exists\<close>
  | Msg_error string                \<comment> \<open>line 79: error: \<open>{e}\<close>\<close>
  | Msg_rule                        \<comment> \<open>lines 83 and 85: sixty \<open>=\<close>\<close>
  | Msg_title                       \<comment> \<open>line 84\<close>
  | Msg_blank                       \<comment> \<open>lines 86 and 96\<close>
  | Msg_using_default path          \<comment> \<open>line 94: using the default image \<open>{input_image}\<close>\<close>
  | Msg_usage                       \<comment> \<open>line 95: hint, a path can be given as argument\<close>
  | Msg_need_pillow                 \<comment> \<open>line 102: error, the Pillow library must be installed\<close>
  | Msg_install_hint                \<comment> \<open>line 103: run \<open>pip install Pillow\<close>\<close>
  | Msg_next_steps                  \<comment> \<open>line 109\<close>
  | Msg_step1                       \<comment> \<open>line 110\<close>
  | Msg_step2                       \<comment> \<open>line 111\<close>
  | Msg_step3                       \<comment> \<open>line 112\<close>

record world =
  files :: "path \<rightharpoonup> disk_file"
  dirs :: "path set"
  stdout :: "line list"
  calls :: "call list"

text \<open>
  Exceptions: the subclasses of \<^verbatim>\<open>Exception\<close> the handlers tell apart, each with its
  \<^verbatim>\<open>str(e)\<close>, and \<^verbatim>\<open>SystemExit\<close>, which \<^verbatim>\<open>sys.exit\<close> raises and
  \<^verbatim>\<open>except Exception\<close> does not catch.
\<close>

datatype exn_class =
    FileNotFoundError | IsADirectoryError | NotADirectoryError | ImportError | OtherException

datatype exn = Exception exn_class string | SystemExit int

text \<open>
  The environment decides which calls fail and how (a corrupt image, a full disk, a
  missing permission), and whether the library can be imported. The theorems below
  quantify over it.
\<close>

record env =
  fault :: "call \<Rightarrow> (exn_class \<times> string) option"
  pil_import :: "(exn_class \<times> string) option"

type_synonym 'a io = "world \<Rightarrow> (exn + 'a) \<times> world"

definition io_return :: "'a \<Rightarrow> 'a io" where
  "io_return x w = (Inr x, w)"

definition io_raise :: "exn \<Rightarrow> 'a io" where
  "io_raise e w = (Inl e, w)"

definition io_bind :: "'a io \<Rightarrow> ('a \<Rightarrow> 'b io) \<Rightarrow> 'b io" where
  "io_bind m k w = (case m w of (Inl e, w') \<Rightarrow> (Inl e, w') | (Inr x, w') \<Rightarrow> k x w')"

text \<open>
  \<^verbatim>\<open>try: m except ...: h\<close>. What \<open>m\<close> did to the world before it raised stays done;
  a handler re-raises the exceptions its \<^verbatim>\<open>except\<close> clauses do not name.
\<close>

definition try_except :: "'a io \<Rightarrow> (exn \<Rightarrow> 'a io) \<Rightarrow> 'a io" where
  "try_except m h w = (case m w of (Inl e, w') \<Rightarrow> h e w' | (Inr x, w') \<Rightarrow> (Inr x, w'))"

definition print :: "line \<Rightarrow> unit io" where
  "print l w = (Inr (), w\<lparr>stdout := stdout w @ [l]\<rparr>)"

definition sys_exit :: "int \<Rightarrow> 'a io" where
  "sys_exit n = io_raise (SystemExit n)"

text \<open>A call is recorded, then the environment says whether it fails.\<close>

definition lib_call :: "env \<Rightarrow> call \<Rightarrow> unit io" where
  "lib_call e c w =
     (case fault e c of
        Some (cls, txt) \<Rightarrow> (Inl (Exception cls txt), w\<lparr>calls := calls w @ [c]\<rparr>)
      | None \<Rightarrow> (Inr (), w\<lparr>calls := calls w @ [c]\<rparr>))"

text \<open>A path and the paths of the directories above it, the shortest first.\<close>

definition ancestors :: "path \<Rightarrow> path list" where
  "ancestors p = [take i p. i \<leftarrow> [1..<length p], p ! i = CHR ''/''] @ [p]"

text \<open>The path runs through a regular file: a path above it is that of a file.\<close>

definition through_file :: "world \<Rightarrow> path \<Rightarrow> bool" where
  "through_file w p =
     list_ex (\<lambda>a. case files w a of None \<Rightarrow> False | Some f \<Rightarrow> True) (butlast (ancestors p))"

text \<open>
  What \<^verbatim>\<open>open\<close> raises on a POSIX system for a path at which there is no regular file:
  \<^verbatim>\<open>NotADirectoryError\<close> when the path runs through a file, \<^verbatim>\<open>IsADirectoryError\<close>
  when it is a directory, \<^verbatim>\<open>FileNotFoundError\<close> when nothing is there; the text is
  \<^verbatim>\<open>str(e)\<close>, which quotes the path.
\<close>

definition open_error :: "world \<Rightarrow> path \<Rightarrow> exn_class \<times> string" where
  "open_error w p =
     (if through_file w p
      then (NotADirectoryError, ''[Errno 20] Not a directory: '' @ [CHR 0x27] @ p @ [CHR 0x27])
      else if p \<in> dirs w
      then (IsADirectoryError, ''[Errno 21] Is a directory: '' @ [CHR 0x27] @ p @ [CHR 0x27])
      else (FileNotFoundError,
            ''[Errno 2] No such file or directory: '' @ [CHR 0x27] @ p @ [CHR 0x27]))"

text \<open>
  \<^verbatim>\<open>Image.open(path)\<close>. The environment may make the call fail in its own way (a
  missing permission, an unreadable or corrupt file). Otherwise a file at the path is
  decoded, and without one the call raises what the operating system answers for the
  path: only when nothing is there is that \<^verbatim>\<open>FileNotFoundError\<close>.
\<close>

definition Image_open :: "env \<Rightarrow> path \<Rightarrow> image io" where
  "Image_open e p w =
     io_bind (lib_call e (Open p))
       (\<lambda>_. case files w p of
               None \<Rightarrow> (case open_error w p of (cls, msg) \<Rightarrow> io_raise (Exception cls msg))
             | Some f \<Rightarrow> io_return (picture f)) w"

definition Image_crop :: "env \<Rightarrow> image \<Rightarrow> box \<Rightarrow> image io" where
  "Image_crop e img bx = io_bind (lib_call e (Crop img bx)) (\<lambda>_. io_return (crop img bx))"

definition Image_convert :: "env \<Rightarrow> image \<Rightarrow> string \<Rightarrow> image io" where
  "Image_convert e img m = io_bind (lib_call e (Convert img m)) (\<lambda>_. io_return (convert img m))"

definition Image_resize :: "env \<Rightarrow> image \<Rightarrow> int \<times> int \<Rightarrow> resampling \<Rightarrow> image io" where
  "Image_resize e img sz flt =
     io_bind (lib_call e (Resize img sz flt)) (\<lambda>_. io_return (resize img sz flt))"

text \<open>\<^verbatim>\<open>img.save(path, fmt)\<close> creates the file or overwrites the one that is there.\<close>

definition Image_save :: "env \<Rightarrow> image \<Rightarrow> path \<Rightarrow> string \<Rightarrow> unit io" where
  "Image_save e img p fmt =
     io_bind (lib_call e (Save img p fmt))
       (\<lambda>_ w. (Inr (), w\<lparr>files := (files w)(p \<mapsto> \<lparr>format = fmt, picture = img\<rparr>)\<rparr>))"

text \<open>
  \<^verbatim>\<open>os.makedirs(name, exist_ok=True)\<close> creates the directory and every missing
  ancestor, and accepts that they exist.
\<close>

definition os_makedirs :: "env \<Rightarrow> path \<Rightarrow> unit io" where
  "os_makedirs e p =
     io_bind (lib_call e (Makedirs p))
       (\<lambda>_ w. (Inr (), w\<lparr>dirs := dirs w \<union> set (ancestors p)\<rparr>))"

text \<open>\<^verbatim>\<open>os.path.join(a, b)\<close> of \<^verbatim>\<open>posixpath\<close>.\<close>

definition join :: "path \<Rightarrow> path \<Rightarrow> path" where
  "join a b =
     (if take 1 b = ''/'' then b
      else if a = [] \<or> last a = CHR ''/'' then a @ b
      else a @ ''/'' @ b)"

subsection \<open>The script\<close>

text \<open>Lines 12 to 18. A Python dictionary is iterated in the order of insertion.\<close>

definition ICON_SIZES :: "(string \<times> int) list" where
  "ICON_SIZES =
     [(''mipmap-mdpi'', 48),
      (''mipmap-hdpi'', 72),
      (''mipmap-xhdpi'', 96),
      (''mipmap-xxhdpi'', 144),
      (''mipmap-xxxhdpi'', 192)]"

text \<open>Line 21.\<close>

definition BASE_DIR :: path where
  "BASE_DIR = ''project_guideline/android/java/com/google/research/guideline/res''"

text \<open>Lines 56 to 69: the loop over the items of the size table, with \<open>img\<close> fixed.\<close>

fun write_icons :: "env \<Rightarrow> image \<Rightarrow> (string \<times> int) list \<Rightarrow> unit io" where
  "write_icons e img [] = io_return ()"
| "write_icons e img ((folder, size') # rest) =
     (let output_dir = join BASE_DIR folder in
      io_bind (os_makedirs e output_dir) (\<lambda>_.
      io_bind (Image_resize e img (size', size') LANCZOS) (\<lambda>resized_img.
      let output_path = join output_dir ''ic_launcher.png'' in
      io_bind (Image_save e resized_img output_path ''PNG'') (\<lambda>_.
      io_bind (print (Msg_generated folder size')) (\<lambda>_.
      write_icons e img rest)))))"

text \<open>Lines 37 to 49: the centred square crop of an image that is not square.\<close>

definition crop_square :: "env \<Rightarrow> image \<Rightarrow> image io" where
  "crop_square e img =
     (case size_px img of (width, height) \<Rightarrow>
        if width \<noteq> height then
          io_bind (print (Msg_not_square width height)) (\<lambda>_.
          io_bind (print Msg_will_crop) (\<lambda>_.
          let size' = min width height;
              left = (width - size') div 2;
              top' = (height - size') div 2;
              right = left + size';
              bottom = top' + size'
          in io_bind (Image_crop e img (left, top', right, bottom)) (\<lambda>img'.
             io_bind (print (Msg_cropped size')) (\<lambda>_.
             io_return img'))))
        else io_return img)"

text \<open>Lines 52 and 53.\<close>

definition to_rgba :: "env \<Rightarrow> image \<Rightarrow> image io" where
  "to_rgba e img = (if mode img \<noteq> ''RGBA'' then Image_convert e img ''RGBA'' else io_return img)"

text \<open>Lines 33 to 72: the body of the \<^verbatim>\<open>try\<close> statement.\<close>

definition try_block :: "env \<Rightarrow> path \<Rightarrow> unit io" where
  "try_block e input_image_path =
     io_bind (Image_open e input_image_path) (\<lambda>img.
     io_bind (crop_square e img) (\<lambda>img.
     io_bind (to_rgba e img) (\<lambda>img.
     io_bind (write_icons e img ICON_SIZES) (\<lambda>_.
     io_bind (print Msg_all_done) (\<lambda>_.
     print (Msg_saved_to BASE_DIR))))))"

text \<open>Lines 74 to 80: the two \<^verbatim>\<open>except\<close> clauses, in their order.\<close>

definition handlers :: "path \<Rightarrow> exn \<Rightarrow> unit io" where
  "handlers input_image_path ex =
     (case ex of
        Exception FileNotFoundError txt \<Rightarrow>
          io_bind (print (Msg_not_found input_image_path)) (\<lambda>_.
          io_bind (print Msg_ensure_exists) (\<lambda>_.
          sys_exit 1))
      | Exception cls txt \<Rightarrow>
          io_bind (print (Msg_error txt)) (\<lambda>_.
          sys_exit 1)
      | SystemExit n \<Rightarrow> io_raise ex)"

text \<open>Lines 23 to 80.\<close>

definition generate_icons :: "env \<Rightarrow> path \<Rightarrow> unit io" where
  "generate_icons e input_image_path =
     io_bind (print (Msg_reading input_image_path)) (\<lambda>_.
     try_except (try_block e input_image_path) (handlers input_image_path))"

text \<open>The statement \<^verbatim>\<open>from PIL import Image\<close>, at line 9 and again at line 100.\<close>

definition import_PIL :: "env \<Rightarrow> unit io" where
  "import_PIL e =
     (case pil_import e of
        None \<Rightarrow> io_return ()
      | Some (cls, txt) \<Rightarrow> io_raise (Exception cls txt))"

text \<open>Lines 82 to 112. \<open>argv\<close> is \<^verbatim>\<open>sys.argv\<close>: the script's name, then the arguments.\<close>

definition main :: "env \<Rightarrow> string list \<Rightarrow> unit io" where
  "main e argv =
     io_bind (print Msg_rule) (\<lambda>_.
     io_bind (print Msg_title) (\<lambda>_.
     io_bind (print Msg_rule) (\<lambda>_.
     io_bind (print Msg_blank) (\<lambda>_.
     io_bind (if length argv > 1 then io_return (argv ! 1)
              else io_bind (print (Msg_using_default ''icon.png'')) (\<lambda>_.
                   io_bind (print Msg_usage) (\<lambda>_.
                   io_bind (print Msg_blank) (\<lambda>_.
                   io_return ''icon.png'')))) (\<lambda>input_image.
     io_bind (try_except (import_PIL e)
                (\<lambda>ex. case ex of
                         Exception ImportError txt \<Rightarrow>
                           io_bind (print Msg_need_pillow) (\<lambda>_.
                           io_bind (print Msg_install_hint) (\<lambda>_.
                           sys_exit 1))
                       | _ \<Rightarrow> io_raise ex)) (\<lambda>_.
     io_bind (generate_icons e input_image) (\<lambda>_.
     io_bind (print Msg_next_steps) (\<lambda>_.
     io_bind (print Msg_step1) (\<lambda>_.
     io_bind (print Msg_step2) (\<lambda>_.
     print Msg_step3))))))))))"

text \<open>
  The module run as a program: the import of line 9 is executed when the module is
  loaded, outside every \<^verbatim>\<open>try\<close>, and lines 114 and 115 then call \<^verbatim>\<open>main\<close>.
\<close>

definition script :: "env \<Rightarrow> string list \<Rightarrow> unit io" where
  "script e argv = io_bind (import_PIL e) (\<lambda>_. main e argv)"

text \<open>
  The exit status of the interpreter: 0 when the program runs to its end, the argument
  of \<^verbatim>\<open>sys.exit\<close>, and 1 after a traceback for an exception nobody caught.
\<close>

fun exit_status :: "exn + unit \<Rightarrow> int" where
  "exit_status (Inr _) = 0"
| "exit_status (Inl (SystemExit n)) = n"
| "exit_status (Inl (Exception cls txt)) = 1"

subsection \<open>Notions used in the statements\<close>

text \<open>The path of the icon of a density folder: lines 57 and 66 together.\<close>

definition icon_path :: "string \<Rightarrow> path" where
  "icon_path folder = join (join BASE_DIR folder) ''ic_launcher.png''"

text \<open>The calls made and the lines printed between two worlds of one run.\<close>

definition new_calls :: "world \<Rightarrow> world \<Rightarrow> call list" where
  "new_calls w w' = drop (length (calls w)) (calls w')"

definition new_lines :: "world \<Rightarrow> world \<Rightarrow> line list" where
  "new_lines w w' = drop (length (stdout w)) (stdout w')"

text \<open>The crop box of lines 43 to 47 for an image of the given width and height.\<close>

definition centre_box :: "int \<Rightarrow> int \<Rightarrow> box" where
  "centre_box width height =
     (let size' = min width height;
          left = (width - size') div 2;
          top' = (height - size') div 2;
          right = left + size';
          bottom = top' + size'
      in (left, top', right, bottom))"

text \<open>
  What lines 37 to 49 leave in \<^verbatim>\<open>img\<close> when \<^verbatim>\<open>crop\<close> does not fail, and what lines
  37 to 53 leave there when \<^verbatim>\<open>convert\<close> does not fail either: the image the loop
  works on.
\<close>

definition squared :: "image \<Rightarrow> image" where
  "squared img =
     (case size_px img of (width, height) \<Rightarrow>
        if width \<noteq> height then crop img (centre_box width height) else img)"

definition working :: "image \<Rightarrow> image" where
  "working img =
     (if mode (squared img) \<noteq> ''RGBA'' then convert (squared img) ''RGBA'' else squared img)"

text \<open>The calls lines 37 to 53 make for a loaded image, when none of them fails.\<close>

definition prep_calls :: "image \<Rightarrow> call list" where
  "prep_calls img =
     (case size_px img of (width, height) \<Rightarrow>
        if width \<noteq> height then [Crop img (centre_box width height)] else []) @
     (if mode (squared img) \<noteq> ''RGBA'' then [Convert (squared img) ''RGBA''] else [])"

text \<open>The calls one round of the loop makes for an entry of the table.\<close>

definition round_calls :: "image \<Rightarrow> string \<times> int \<Rightarrow> call list" where
  "round_calls img entry =
     (case entry of (folder, size') \<Rightarrow>
        [Makedirs (join BASE_DIR folder),
         Resize img (size', size') LANCZOS,
         Save (resize img (size', size') LANCZOS) (icon_path folder) ''PNG''])"

subsection \<open>Example inputs\<close>

text \<open>An environment in which no call fails and the library is installed.\<close>

definition env_ok :: env where
  "env_ok = \<lparr>fault = (\<lambda>c. None), pil_import = None\<rparr>"

text \<open>An interpreter without Pillow: the import raises \<^verbatim>\<open>ModuleNotFoundError\<close>.\<close>

definition env_no_pil :: env where
  "env_no_pil =
     \<lparr>fault = (\<lambda>c. None),
      pil_import = Some (ImportError, ''No module named '' @ [CHR 0x27] @ ''PIL'' @ [CHR 0x27])\<rparr>"

text \<open>The disk is full when the third icon is saved.\<close>

definition env_disk_full :: env where
  "env_disk_full =
     \<lparr>fault = (\<lambda>c. case c of
                    Save img q fmt \<Rightarrow>
                      if size_px img = (96, 96)
                      then Some (OtherException, ''[Errno 28] No space left on device'')
                      else None
                  | _ \<Rightarrow> None),
      pil_import = None\<rparr>"

definition logo :: image where
  "logo = \<lparr>size_px = (1000, 800), mode = ''RGB'', pixels = Original 0\<rparr>"

definition app_icon :: image where
  "app_icon = \<lparr>size_px = (512, 512), mode = ''RGBA'', pixels = Original 1\<rparr>"

definition gray_icon :: image where
  "gray_icon = \<lparr>size_px = (512, 512), mode = ''LA'', pixels = Original 2\<rparr>"

text \<open>A working directory with three images, a directory, and no \<^verbatim>\<open>icon.png\<close>.\<close>

definition world_ex :: world where
  "world_ex =
     \<lparr>files = [''logo.png'' \<mapsto> \<lparr>format = ''JPEG'', picture = logo\<rparr>,
               ''app.png'' \<mapsto> \<lparr>format = ''PNG'', picture = app_icon\<rparr>,
               ''gray.png'' \<mapsto> \<lparr>format = ''PNG'', picture = gray_icon\<rparr>],
      dirs = {''images''}, stdout = [], calls = []\<rparr>"

section \<open>Properties\<close>

subsection \<open>The monad\<close>

lemma io_bind_return: "io_bind (io_return x) k w = k x w"
  by (simp add: io_bind_def io_return_def)

lemma io_bind_print: "io_bind (print l) k w = k () (w\<lparr>stdout := stdout w @ [l]\<rparr>)"
  by (simp add: io_bind_def print_def)

subsection \<open>The loop of lines 56 to 69\<close>

text \<open>One round of the loop, with the three calls that can fail written out.\<close>

lemma write_icons_Cons:
  "write_icons e img ((folder, sz) # rest) w =
     (case fault e (Makedirs (join BASE_DIR folder)) of
        Some (cls, txt) \<Rightarrow>
          (Inl (Exception cls txt), w\<lparr>calls := calls w @ [Makedirs (join BASE_DIR folder)]\<rparr>)
      | None \<Rightarrow>
          (case fault e (Resize img (sz, sz) LANCZOS) of
             Some (cls, txt) \<Rightarrow>
               (Inl (Exception cls txt),
                w\<lparr>dirs := dirs w \<union> set (ancestors (join BASE_DIR folder)),
                  calls := calls w @ [Makedirs (join BASE_DIR folder), Resize img (sz, sz) LANCZOS]\<rparr>)
           | None \<Rightarrow>
               (case fault e (Save (resize img (sz, sz) LANCZOS) (icon_path folder) ''PNG'') of
                  Some (cls, txt) \<Rightarrow>
                    (Inl (Exception cls txt),
                     w\<lparr>dirs := dirs w \<union> set (ancestors (join BASE_DIR folder)),
                       calls := calls w @ round_calls img (folder, sz)\<rparr>)
                | None \<Rightarrow>
                    write_icons e img rest
                      (w\<lparr>dirs := dirs w \<union> set (ancestors (join BASE_DIR folder)),
                         calls := calls w @ round_calls img (folder, sz),
                         files := (files w)(icon_path folder \<mapsto>
                           \<lparr>format = ''PNG'', picture = resize img (sz, sz) LANCZOS\<rparr>),
                         stdout := stdout w @ [Msg_generated folder sz]\<rparr>))))"
  by (simp add: Let_def os_makedirs_def Image_resize_def Image_save_def io_bind_def
        lib_call_def io_return_def print_def icon_path_def round_calls_def split: option.splits)

lemma write_icons_round:
  assumes "write_icons e img ((folder, sz) # rest) w = (r, w')"
  obtains (failed) cls msg cs where
      "r = Inl (Exception cls msg)" "calls w' = calls w @ cs"
      "set cs \<subseteq> set (round_calls img (folder, sz))"
      "stdout w' = stdout w" "files w' = files w"
      "dirs w \<subseteq> dirs w'" "dirs w' \<subseteq> dirs w \<union> set (ancestors (join BASE_DIR folder))"
      "\<exists>c\<in>set (round_calls img (folder, sz)). fault e c \<noteq> None"
  | (passed) w4 where
      "write_icons e img rest w4 = (r, w')"
      "calls w4 = calls w @ round_calls img (folder, sz)"
      "stdout w4 = stdout w @ [Msg_generated folder sz]"
      "files w4 = (files w)(icon_path folder \<mapsto>
                     \<lparr>format = ''PNG'', picture = resize img (sz, sz) LANCZOS\<rparr>)"
      "dirs w4 = dirs w \<union> set (ancestors (join BASE_DIR folder))"
      "\<forall>c\<in>set (round_calls img (folder, sz)). fault e c = None"
proof (cases "\<forall>c\<in>set (round_calls img (folder, sz)). fault e c = None")
  case True
  let ?w4 = "w\<lparr>dirs := dirs w \<union> set (ancestors (join BASE_DIR folder)),
               calls := calls w @ round_calls img (folder, sz),
               files := (files w)(icon_path folder \<mapsto>
                 \<lparr>format = ''PNG'', picture = resize img (sz, sz) LANCZOS\<rparr>),
               stdout := stdout w @ [Msg_generated folder sz]\<rparr>"
  from True have "write_icons e img ((folder, sz) # rest) w = write_icons e img rest ?w4"
    unfolding write_icons_Cons by (simp add: round_calls_def)
  with assms have "write_icons e img rest ?w4 = (r, w')" by simp
  then show ?thesis
    by (rule passed) (use True in simp_all)
next
  case False
  let ?d = "join BASE_DIR folder"
  let ?pic = "resize img (sz, sz) LANCZOS"
  from False have
    "fault e (Makedirs ?d) \<noteq> None \<or> fault e (Resize img (sz, sz) LANCZOS) \<noteq> None \<or>
     fault e (Save ?pic (icon_path folder) ''PNG'') \<noteq> None"
    by (simp add: round_calls_def)
  then consider
      (mk) x where "fault e (Makedirs ?d) = Some x"
    | (rs) x where "fault e (Makedirs ?d) = None"
        "fault e (Resize img (sz, sz) LANCZOS) = Some x"
    | (sv) x where "fault e (Makedirs ?d) = None"
        "fault e (Resize img (sz, sz) LANCZOS) = None"
        "fault e (Save ?pic (icon_path folder) ''PNG'') = Some x"
    by (metis not_None_eq)
  then show ?thesis
  proof cases
    case mk
    obtain cls msg where x: "x = (cls, msg)" by (cases x)
    with mk assms have "r = Inl (Exception cls msg)"
      and "w' = w\<lparr>calls := calls w @ [Makedirs ?d]\<rparr>"
      unfolding write_icons_Cons by simp_all
    then show ?thesis
      using mk x by (intro failed [of cls msg "[Makedirs ?d]"]) (simp_all add: round_calls_def)
  next
    case rs
    obtain cls msg where x: "x = (cls, msg)" by (cases x)
    with rs assms have "r = Inl (Exception cls msg)"
      and "w' = w\<lparr>dirs := dirs w \<union> set (ancestors ?d),
                  calls := calls w @ [Makedirs ?d, Resize img (sz, sz) LANCZOS]\<rparr>"
      unfolding write_icons_Cons by simp_all
    then show ?thesis
      using rs x
      by (intro failed [of cls msg "[Makedirs ?d, Resize img (sz, sz) LANCZOS]"])
        (simp_all add: round_calls_def)
  next
    case sv
    obtain cls msg where x: "x = (cls, msg)" by (cases x)
    with sv assms have "r = Inl (Exception cls msg)"
      and "w' = w\<lparr>dirs := dirs w \<union> set (ancestors ?d),
                  calls := calls w @ round_calls img (folder, sz)\<rparr>"
      unfolding write_icons_Cons by simp_all
    then show ?thesis
      using sv x
      by (intro failed [of cls msg "round_calls img (folder, sz)"])
        (simp_all add: round_calls_def)
  qed
qed

lemma write_icons_calls:
  "write_icons e img es w = (r, w') \<Longrightarrow>
   \<exists>cs. calls w' = calls w @ cs \<and> set cs \<subseteq> (\<Union>en\<in>set es. set (round_calls img en))"
proof (induction es arbitrary: w)
  case Nil
  then show ?case by (simp add: io_return_def)
next
  case (Cons en es)
  obtain folder sz where en: "en = (folder, sz)" by (cases en)
  from Cons.prems [unfolded en] show ?case
  proof (cases rule: write_icons_round)
    case (failed cls msg cs)
    then show ?thesis by (auto simp: en)
  next
    case (passed w4)
    from Cons.IH [OF passed(1)] passed(2) show ?thesis by (auto simp: en)
  qed
qed

lemma write_icons_files:
  "write_icons e img es w = (r, w') \<Longrightarrow> q \<notin> icon_path ` fst ` set es \<Longrightarrow> files w' q = files w q"
proof (induction es arbitrary: w)
  case Nil
  then show ?case by (simp add: io_return_def)
next
  case (Cons en es)
  obtain folder sz where en: "en = (folder, sz)" by (cases en)
  from Cons.prems(1) [unfolded en] show ?case
  proof (cases rule: write_icons_round)
    case (failed cls msg cs)
    then show ?thesis by simp
  next
    case (passed w4)
    from Cons.IH [OF passed(1)] Cons.prems(2) passed(4) show ?thesis by (auto simp: en)
  qed
qed

lemma write_icons_dom:
  "write_icons e img es w = (r, w') \<Longrightarrow> files w q \<noteq> None \<Longrightarrow> files w' q \<noteq> None"
proof (induction es arbitrary: w)
  case Nil
  then show ?case by (simp add: io_return_def)
next
  case (Cons en es)
  obtain folder sz where en: "en = (folder, sz)" by (cases en)
  from Cons.prems(1) [unfolded en] show ?case
  proof (cases rule: write_icons_round)
    case (failed cls msg cs)
    with Cons.prems(2) show ?thesis by simp
  next
    case (passed w4)
    from Cons.prems(2) passed(4) have "files w4 q \<noteq> None" by simp
    with Cons.IH [OF passed(1)] show ?thesis by simp
  qed
qed

lemma write_icons_dirs:
  "write_icons e img es w = (r, w') \<Longrightarrow>
   dirs w \<subseteq> dirs w' \<and>
   dirs w' \<subseteq> dirs w \<union> (\<Union>en\<in>set es. set (ancestors (join BASE_DIR (fst en))))"
proof (induction es arbitrary: w)
  case Nil
  then show ?case by (simp add: io_return_def)
next
  case (Cons en es)
  obtain folder sz where en: "en = (folder, sz)" by (cases en)
  from Cons.prems(1) [unfolded en] show ?case
  proof (cases rule: write_icons_round)
    case (failed cls msg cs)
    then show ?thesis by (auto simp: en)
  next
    case (passed w4)
    from Cons.IH [OF passed(1)] passed(5) show ?thesis by (auto simp: en)
  qed
qed

lemma write_icons_done:
  assumes "distinct (map (\<lambda>en. icon_path (fst en)) es)"
    and "write_icons e img es w = (r, w')"
  shows "\<exists>k\<le>length es.
           stdout w' = stdout w @ map (\<lambda>(folder, sz). Msg_generated folder sz) (take k es) \<and>
           (\<forall>(folder, sz)\<in>set (take k es).
              files w' (icon_path folder) =
                Some \<lparr>format = ''PNG'', picture = resize img (sz, sz) LANCZOS\<rparr>) \<and>
           (r = Inr () \<longrightarrow> k = length es)"
  using assms
proof (induction es arbitrary: w)
  case Nil
  then show ?case by (simp add: io_return_def)
next
  case (Cons en es)
  obtain folder sz where en: "en = (folder, sz)" by (cases en)
  let ?pic = "resize img (sz, sz) LANCZOS"
  from Cons.prems(2) [unfolded en] show ?case
  proof (cases rule: write_icons_round)
    case (failed cls msg cs)
    then show ?thesis
      by (intro exI [of _ 0]) simp
  next
    case (passed w4)
    from Cons.prems(1) have dist: "distinct (map (\<lambda>en. icon_path (fst en)) es)"
      and fresh: "icon_path folder \<notin> icon_path ` fst ` set es"
      by (auto simp: en)
    from Cons.IH [OF dist passed(1)] obtain k where k: "k \<le> length es"
      and out: "stdout w' = stdout w4 @ map (\<lambda>(folder, sz). Msg_generated folder sz) (take k es)"
      and fs: "\<forall>(folder, sz)\<in>set (take k es).
                 files w' (icon_path folder) =
                   Some \<lparr>format = ''PNG'', picture = resize img (sz, sz) LANCZOS\<rparr>"
      and fin: "r = Inr () \<longrightarrow> k = length es"
      by blast
    have head: "files w' (icon_path folder) = Some \<lparr>format = ''PNG'', picture = ?pic\<rparr>"
      using write_icons_files [OF passed(1) fresh] passed(4) by simp
    show ?thesis
      using k out fs fin head passed(3)
      by (intro exI [of _ "Suc k"]) (simp add: en)
  qed
qed

lemma write_icons_no_fault:
  assumes "\<forall>c. fault e c = None"
  shows "\<exists>w'. write_icons e img es w = (Inr (), w') \<and>
           calls w' = calls w @ concat (map (round_calls img) es)"
proof (induction es arbitrary: w)
  case Nil
  then show ?case by (simp add: io_return_def)
next
  case (Cons en es)
  obtain folder sz where en: "en = (folder, sz)" by (cases en)
  obtain r w' where run: "write_icons e img ((folder, sz) # es) w = (r, w')"
    by (cases "write_icons e img ((folder, sz) # es) w")
  from run show ?case
  proof (cases rule: write_icons_round)
    case (failed cls msg cs)
    with assms show ?thesis by simp
  next
    case (passed w4)
    from Cons.IH [of w4] passed(1,2) run show ?thesis by (auto simp: en)
  qed
qed

subsection \<open>Lines 33 to 53\<close>

lemma crop_square_run:
  assumes "crop_square e img w = (r, w')"
  shows "files w' = files w \<and> dirs w' = dirs w \<and>
         (\<exists>ls. stdout w' = stdout w @ ls \<and> (\<forall>folder sz. Msg_generated folder sz \<notin> set ls)) \<and>
         ((r = Inr (squared img) \<and>
           (\<exists>cs. calls w' = calls w @ cs \<and> (\<forall>c\<in>set cs. fault e c = None) \<and>
              cs = (case size_px img of (width, height) \<Rightarrow>
                      if width \<noteq> height then [Crop img (centre_box width height)] else []))) \<or>
          (\<exists>cls msg width height. r = Inl (Exception cls msg) \<and>
             size_px img = (width, height) \<and> width \<noteq> height \<and>
             fault e (Crop img (centre_box width height)) = Some (cls, msg) \<and>
             calls w' = calls w @ [Crop img (centre_box width height)]))"
proof -
  obtain width height where sz: "size_px img = (width, height)"
    by (cases "size_px img")
  show ?thesis
  proof (cases "width = height")
    case True
    with assms sz show ?thesis
      by (simp add: crop_square_def squared_def io_return_def)
  next
    case False
    with assms sz show ?thesis
      by (cases "fault e (Crop img (centre_box width height))")
        (auto simp: crop_square_def squared_def Image_crop_def centre_box_def Let_def
           io_bind_def print_def lib_call_def io_return_def)
  qed
qed

lemma to_rgba_run:
  assumes "to_rgba e sq w = (r, w')"
  shows "files w' = files w \<and> dirs w' = dirs w \<and> stdout w' = stdout w \<and>
         ((r = Inr (if mode sq \<noteq> ''RGBA'' then convert sq ''RGBA'' else sq) \<and>
           (\<exists>cs. calls w' = calls w @ cs \<and> (\<forall>c\<in>set cs. fault e c = None) \<and>
              cs = (if mode sq \<noteq> ''RGBA'' then [Convert sq ''RGBA''] else []))) \<or>
          (\<exists>cls msg. r = Inl (Exception cls msg) \<and> mode sq \<noteq> ''RGBA'' \<and>
             fault e (Convert sq ''RGBA'') = Some (cls, msg) \<and>
             calls w' = calls w @ [Convert sq ''RGBA'']))"
  using assms
  by (cases "fault e (Convert sq ''RGBA'')")
    (auto simp: to_rgba_def Image_convert_def io_bind_def lib_call_def io_return_def
       split: if_splits)

lemma open_error_frame:
  "open_error (w\<lparr>stdout := ls\<rparr>) p = open_error w p"
  "open_error (w\<lparr>calls := cs\<rparr>) p = open_error w p"
  by (simp_all add: open_error_def through_file_def)

lemma try_block_missing:
  assumes "files w p = None"
  shows "try_block e p w =
           (Inl (case fault e (Open p) of
                   Some (cls, msg) \<Rightarrow> Exception cls msg
                 | None \<Rightarrow> Exception (fst (open_error w p)) (snd (open_error w p))),
            w\<lparr>calls := calls w @ [Open p]\<rparr>)"
  using assms
  by (simp add: try_block_def Image_open_def io_bind_def lib_call_def io_raise_def
        split: option.splits prod.splits)

lemma try_block_unfold:
  assumes "files w p = Some f"
  shows "try_block e p w =
     (case fault e (Open p) of
        Some (cls, msg) \<Rightarrow> (Inl (Exception cls msg), w\<lparr>calls := calls w @ [Open p]\<rparr>)
      | None \<Rightarrow>
          (case crop_square e (picture f) (w\<lparr>calls := calls w @ [Open p]\<rparr>) of
             (Inl ex, w1) \<Rightarrow> (Inl ex, w1)
           | (Inr sq, w1) \<Rightarrow>
               (case to_rgba e sq w1 of
                  (Inl ex, w2) \<Rightarrow> (Inl ex, w2)
                | (Inr wk, w2) \<Rightarrow>
                    (case write_icons e wk ICON_SIZES w2 of
                       (Inl ex, w3) \<Rightarrow> (Inl ex, w3)
                     | (Inr u, w3) \<Rightarrow>
                         (Inr (), w3\<lparr>stdout := stdout w3 @
                                      [Msg_all_done, Msg_saved_to BASE_DIR]\<rparr>)))))"
  using assms
  by (simp add: try_block_def Image_open_def io_bind_def lib_call_def io_return_def print_def
        split: option.splits prod.splits sum.splits)

lemma try_block_run:
  assumes present: "files w p = Some f" and run: "try_block e p w = (r, w')"
  obtains (early) cls msg cs rest ls where
      "r = Inl (Exception cls msg)"
      "calls w' = calls w @ Open p # cs" "prep_calls (picture f) = cs @ rest"
      "fault e (last (Open p # cs)) = Some (cls, msg)"
      "files w' = files w" "dirs w' = dirs w"
      "stdout w' = stdout w @ ls" "\<forall>folder sz. Msg_generated folder sz \<notin> set ls"
  | (looped) w2 r0 w3 ls where
      "write_icons e (working (picture f)) ICON_SIZES w2 = (r0, w3)"
      "calls w2 = calls w @ Open p # prep_calls (picture f)"
      "\<forall>c\<in>set (Open p # prep_calls (picture f)). fault e c = None"
      "files w2 = files w" "dirs w2 = dirs w"
      "stdout w2 = stdout w @ ls" "\<forall>folder sz. Msg_generated folder sz \<notin> set ls"
      "case r0 of
         Inl ex \<Rightarrow> r = Inl ex \<and> w' = w3
       | Inr u \<Rightarrow> r = Inr () \<and>
           w' = w3\<lparr>stdout := stdout w3 @ [Msg_all_done, Msg_saved_to BASE_DIR]\<rparr>"
proof -
  let ?img = "picture f"
  let ?w0 = "w\<lparr>calls := calls w @ [Open p]\<rparr>"
  note unf = run [unfolded try_block_unfold [OF present]]
  show ?thesis
  proof (cases "fault e (Open p)")
    case (Some x)
    obtain cls msg where x: "x = (cls, msg)" by (cases x)
    from unf Some x have "r = Inl (Exception cls msg)" and "w' = ?w0"
      by simp_all
    then show ?thesis
      using Some x
      by (intro early [of cls msg "[]" "prep_calls ?img" "[]"]) simp_all
  next
    case None
    obtain r1 w1 where c1: "crop_square e ?img ?w0 = (r1, w1)"
      by (cases "crop_square e ?img ?w0")
    note f1 = crop_square_run [OF c1]
    from f1 obtain ls1 where ls1: "stdout w1 = stdout w @ ls1"
      "\<forall>folder sz. Msg_generated folder sz \<notin> set ls1"
      by auto
    obtain width height where sz: "size_px ?img = (width, height)"
      by (cases "size_px ?img")
    let ?cropc = "if width \<noteq> height then [Crop ?img (centre_box width height)] else []"
    let ?convc = "if mode (squared ?img) \<noteq> ''RGBA''
                  then [Convert (squared ?img) ''RGBA''] else []"
    have prep: "prep_calls ?img = ?cropc @ ?convc"
      by (simp add: prep_calls_def sz)
    show ?thesis
    proof (cases r1)
      case (Inl ex)
      with f1 sz obtain cls msg where ex: "ex = Exception cls msg"
        and ne: "width \<noteq> height"
        and fl: "fault e (Crop ?img (centre_box width height)) = Some (cls, msg)"
        and cl: "calls w1 = calls w @ [Open p, Crop ?img (centre_box width height)]"
        by auto
      from unf None c1 Inl ex have "r = Inl (Exception cls msg)" and "w' = w1"
        by simp_all
      then show ?thesis
        using f1 ls1 ne fl cl prep
        by (intro early [of cls msg "[Crop ?img (centre_box width height)]" ?convc ls1])
          simp_all
    next
      case (Inr sq)
      with f1 sz have sq: "sq = squared ?img"
        and cl1: "calls w1 = calls w @ Open p # ?cropc"
        and nf1: "\<forall>c\<in>set ?cropc. fault e c = None"
        by auto
      obtain r2 w2 where c2: "to_rgba e sq w1 = (r2, w2)"
        by (cases "to_rgba e sq w1")
      note f2 = to_rgba_run [OF c2]
      show ?thesis
      proof (cases r2)
        case (Inl ex)
        with f2 sq obtain cls msg where ex: "ex = Exception cls msg"
          and ne: "mode (squared ?img) \<noteq> ''RGBA''"
          and fl: "fault e (Convert (squared ?img) ''RGBA'') = Some (cls, msg)"
          and cl: "calls w2 = calls w1 @ [Convert (squared ?img) ''RGBA'']"
          by auto
        from unf None c1 \<open>r1 = Inr sq\<close> c2 Inl ex
        have "r = Inl (Exception cls msg)" and "w' = w2"
          by simp_all
        then show ?thesis
          using f1 f2 ls1 ne fl cl cl1 prep
          by (intro early [of cls msg "?cropc @ ?convc" "[]" ls1]) simp_all
      next
        case (Inr wk)
        with f2 sq have wk: "wk = working ?img"
          and cl2: "calls w2 = calls w1 @ ?convc"
          and nf2: "\<forall>c\<in>set ?convc. fault e c = None"
          by (auto simp: working_def)
        obtain r0 w3 where c3: "write_icons e (working ?img) ICON_SIZES w2 = (r0, w3)"
          by (cases "write_icons e (working ?img) ICON_SIZES w2")
        have fin: "case r0 of
                     Inl ex \<Rightarrow> r = Inl ex \<and> w' = w3
                   | Inr u \<Rightarrow> r = Inr () \<and>
                       w' = w3\<lparr>stdout := stdout w3 @ [Msg_all_done, Msg_saved_to BASE_DIR]\<rparr>"
          using unf None c1 \<open>r1 = Inr sq\<close> c2 Inr wk c3
          by (cases r0) auto
        have nf: "\<forall>c\<in>set (Open p # prep_calls ?img). fault e c = None"
          using None nf1 nf2 prep by auto
        show ?thesis
          using c3 fin nf f1 f2 ls1 cl1 cl2 prep
          by (intro looped [of w2 r0 w3 ls1]) simp_all
      qed
    qed
  qed
qed


subsection \<open>The handlers, \<^verbatim>\<open>main\<close> and the module\<close>

lemma generate_icons_unfold:
  "generate_icons e p w =
     (case try_block e p (w\<lparr>stdout := stdout w @ [Msg_reading p]\<rparr>) of
        (Inr u, w1) \<Rightarrow> (Inr (), w1)
      | (Inl (Exception cls msg), w1) \<Rightarrow>
          (Inl (SystemExit 1),
           w1\<lparr>stdout := stdout w1 @
                 (if cls = FileNotFoundError then [Msg_not_found p, Msg_ensure_exists]
                  else [Msg_error msg])\<rparr>)
      | (Inl (SystemExit n), w1) \<Rightarrow> (Inl (SystemExit n), w1))"
  by (simp add: generate_icons_def try_except_def handlers_def io_bind_def print_def
        sys_exit_def io_raise_def
        split: prod.splits sum.splits exn.splits exn_class.splits)

lemma script_unfold:
  assumes "pil_import e = None"
  shows "script e argv w =
     (case generate_icons e (if 1 < length argv then argv ! 1 else ''icon.png'')
             (w\<lparr>stdout := stdout w @ [Msg_rule, Msg_title, Msg_rule, Msg_blank] @
                  (if 1 < length argv then []
                   else [Msg_using_default ''icon.png'', Msg_usage, Msg_blank])\<rparr>) of
        (Inl ex, w1) \<Rightarrow> (Inl ex, w1)
      | (Inr u, w1) \<Rightarrow>
          (Inr (), w1\<lparr>stdout := stdout w1 @
                        [Msg_next_steps, Msg_step1, Msg_step2, Msg_step3]\<rparr>))"
  using assms
  by (simp add: script_def main_def import_PIL_def try_except_def io_bind_def print_def
        io_return_def split: prod.splits sum.splits)

lemma script_no_import:
  assumes "pil_import e = Some (cls, msg)"
  shows "script e argv w = (Inl (Exception cls msg), w)"
  using assms by (simp add: script_def import_PIL_def io_bind_def io_raise_def)

lemma generate_icons_frame:
  assumes "generate_icons e p w = (r, w')"
  obtains r1 w1 where "try_block e p (w\<lparr>stdout := stdout w @ [Msg_reading p]\<rparr>) = (r1, w1)"
    "calls w' = calls w1" "files w' = files w1" "dirs w' = dirs w1"
proof -
  obtain r1 w1 where t: "try_block e p (w\<lparr>stdout := stdout w @ [Msg_reading p]\<rparr>) = (r1, w1)"
    by (cases "try_block e p (w\<lparr>stdout := stdout w @ [Msg_reading p]\<rparr>)")
  with assms have "calls w' = calls w1 \<and> files w' = files w1 \<and> dirs w' = dirs w1"
    by (auto simp: generate_icons_unfold split: sum.splits exn.splits)
  with t show ?thesis using that by blast
qed

text \<open>Every call of a run of \<open>generate_icons\<close>, and the files it can touch.\<close>

lemma generate_icons_calls:
  assumes "generate_icons e p w = (r, w')"
  shows "\<exists>cs. calls w' = calls w @ Open p # cs \<and>
           (case files w p of
              None \<Rightarrow> cs = []
            | Some f \<Rightarrow>
                set cs \<subseteq> set (prep_calls (picture f)) \<union>
                  (\<Union>en\<in>set ICON_SIZES. set (round_calls (working (picture f)) en)))"
    and "q \<notin> icon_path ` fst ` set ICON_SIZES \<Longrightarrow> files w' q = files w q"
    and "files w q \<noteq> None \<Longrightarrow> files w' q \<noteq> None"
    and "dirs w \<subseteq> dirs w'"
    and "dirs w' \<subseteq> dirs w \<union> (\<Union>en\<in>set ICON_SIZES. set (ancestors (join BASE_DIR (fst en))))"
proof -
  let ?w0 = "w\<lparr>stdout := stdout w @ [Msg_reading p]\<rparr>"
  from assms obtain r1 w1 where t: "try_block e p ?w0 = (r1, w1)"
    and eq: "calls w' = calls w1" "files w' = files w1" "dirs w' = dirs w1"
    by (rule generate_icons_frame)
  have "(\<exists>cs. calls w1 = calls w @ Open p # cs \<and>
           (case files w p of
              None \<Rightarrow> cs = []
            | Some f \<Rightarrow>
                set cs \<subseteq> set (prep_calls (picture f)) \<union>
                  (\<Union>en\<in>set ICON_SIZES. set (round_calls (working (picture f)) en)))) \<and>
        (q \<notin> icon_path ` fst ` set ICON_SIZES \<longrightarrow> files w1 q = files w q) \<and>
        (files w q \<noteq> None \<longrightarrow> files w1 q \<noteq> None) \<and>
        dirs w \<subseteq> dirs w1 \<and>
        dirs w1 \<subseteq> dirs w \<union> (\<Union>en\<in>set ICON_SIZES. set (ancestors (join BASE_DIR (fst en))))"
  proof (cases "files w p")
    case None
    then have "files ?w0 p = None" by simp
    from try_block_missing [OF this, of e] t None show ?thesis by auto
  next
    case (Some f)
    then have present: "files ?w0 p = Some f" by simp
    from present t show ?thesis
    proof (cases rule: try_block_run)
      case (early cls msg cs rest ls)
      then show ?thesis using Some by auto
    next
      case (looped w2 r0 w3 ls)
      have w13: "calls w1 = calls w3 \<and> files w1 = files w3 \<and> dirs w1 = dirs w3"
        using looped(8) by (cases r0) auto
      from write_icons_calls [OF looped(1)] obtain cs3 where
        cs3: "calls w3 = calls w2 @ cs3"
          "set cs3 \<subseteq> (\<Union>en\<in>set ICON_SIZES. set (round_calls (working (picture f)) en))"
        by blast
      have c: "calls w1 = calls w @ Open p # (prep_calls (picture f) @ cs3)"
        using w13 cs3(1) looped(2) by simp
      have s: "set (prep_calls (picture f) @ cs3) \<subseteq> set (prep_calls (picture f)) \<union>
                  (\<Union>en\<in>set ICON_SIZES. set (round_calls (working (picture f)) en))"
        using cs3(2) by auto
      show ?thesis
        using c s Some w13 looped(4,5) write_icons_files [OF looped(1), of q]
          write_icons_dom [OF looped(1), of q] write_icons_dirs [OF looped(1)]
        by (intro conjI exI [of _ "prep_calls (picture f) @ cs3"]) simp_all
    qed
  qed
  with eq show
    "\<exists>cs. calls w' = calls w @ Open p # cs \<and>
           (case files w p of
              None \<Rightarrow> cs = []
            | Some f \<Rightarrow>
                set cs \<subseteq> set (prep_calls (picture f)) \<union>
                  (\<Union>en\<in>set ICON_SIZES. set (round_calls (working (picture f)) en)))"
    and "q \<notin> icon_path ` fst ` set ICON_SIZES \<Longrightarrow> files w' q = files w q"
    and "files w q \<noteq> None \<Longrightarrow> files w' q \<noteq> None"
    and "dirs w \<subseteq> dirs w'"
    and "dirs w' \<subseteq> dirs w \<union> (\<Union>en\<in>set ICON_SIZES. set (ancestors (join BASE_DIR (fst en))))"
    by simp_all
qed

lemma working_square_rgba:
  "fst (size_px (working img)) = snd (size_px (working img))"
  "mode (working img) = ''RGBA''"
  by (cases "size_px img";
      simp add: working_def squared_def convert_def crop_def centre_box_def Let_def)+

subsection \<open>Runs of \<open>generate_icons\<close>\<close>


lemma icon_paths:
  "map (\<lambda>(folder, sz). (icon_path folder, sz)) ICON_SIZES =
     [(''project_guideline/android/java/com/google/research/guideline/res/mipmap-mdpi/ic_launcher.png'', 48),
      (''project_guideline/android/java/com/google/research/guideline/res/mipmap-hdpi/ic_launcher.png'', 72),
      (''project_guideline/android/java/com/google/research/guideline/res/mipmap-xhdpi/ic_launcher.png'', 96),
      (''project_guideline/android/java/com/google/research/guideline/res/mipmap-xxhdpi/ic_launcher.png'', 144),
      (''project_guideline/android/java/com/google/research/guideline/res/mipmap-xxxhdpi/ic_launcher.png'', 192)]"
  by (simp add: ICON_SIZES_def icon_path_def join_def BASE_DIR_def)

lemma icon_paths_distinct: "distinct (map (\<lambda>en. icon_path (fst en)) ICON_SIZES)"
  by (simp add: ICON_SIZES_def icon_path_def join_def BASE_DIR_def)

lemma prep_calls_no_resize:
  "c \<in> set (prep_calls img) \<Longrightarrow>
   c = Crop img (centre_box (fst (size_px img)) (snd (size_px img))) \<or>
   c = Convert (squared img) ''RGBA''"
  by (cases "size_px img") (auto simp: prep_calls_def split: if_splits)

lemma round_calls_cases:
  "c \<in> set (round_calls img en) \<Longrightarrow>
   c = Makedirs (join BASE_DIR (fst en)) \<or>
   c = Resize img (snd en, snd en) LANCZOS \<or>
   c = Save (resize img (snd en, snd en) LANCZOS) (icon_path (fst en)) ''PNG''"
  by (cases en) (auto simp: round_calls_def)

text \<open>What a call of a run of \<open>generate_icons\<close> on a loaded image can be.\<close>

lemma generate_icons_call_cases:
  assumes "generate_icons e p w = (r, w')" and "files w p = Some f"
    and "c \<in> set (new_calls w w')"
  shows "c = Open p \<or>
         c = Crop (picture f)
               (centre_box (fst (size_px (picture f))) (snd (size_px (picture f)))) \<or>
         c = Convert (squared (picture f)) ''RGBA'' \<or>
         (\<exists>en\<in>set ICON_SIZES.
            c = Makedirs (join BASE_DIR (fst en)) \<or>
            c = Resize (working (picture f)) (snd en, snd en) LANCZOS \<or>
            c = Save (resize (working (picture f)) (snd en, snd en) LANCZOS)
                  (icon_path (fst en)) ''PNG'')"
proof -
  from generate_icons_calls(1) [OF assms(1)] assms(2) obtain cs where
    cs: "calls w' = calls w @ Open p # cs"
      "set cs \<subseteq> set (prep_calls (picture f)) \<union>
         (\<Union>en\<in>set ICON_SIZES. set (round_calls (working (picture f)) en))"
    by auto
  from cs(1) assms(3) have "c = Open p \<or> c \<in> set cs"
    by (simp add: new_calls_def)
  with cs(2) consider "c = Open p" | "c \<in> set (prep_calls (picture f))"
    | en where "en \<in> set ICON_SIZES" "c \<in> set (round_calls (working (picture f)) en)"
    by auto
  then show ?thesis
  proof cases
    case 1
    then show ?thesis by simp
  next
    case 2
    from prep_calls_no_resize [OF this] show ?thesis by auto
  next
    case 3
    from round_calls_cases [OF 3(2)] 3(1) show ?thesis by blast
  qed
qed


lemma working_size:
  "size_px (working img) =
     (if fst (size_px img) \<noteq> snd (size_px img)
      then (min (fst (size_px img)) (snd (size_px img)), min (fst (size_px img)) (snd (size_px img)))
      else size_px img)"
  by (cases "size_px img")
    (simp add: working_def squared_def convert_def crop_def centre_box_def Let_def)

text \<open>A run in which no call fails.\<close>

lemma generate_icons_no_fault:
  assumes present: "files w p = Some f" and ok: "\<forall>c. fault e c = None"
  shows "\<exists>w'. generate_icons e p w = (Inr (), w') \<and>
           calls w' = calls w @ Open p # prep_calls (picture f) @
             concat (map (round_calls (working (picture f))) ICON_SIZES) \<and>
           (\<forall>(folder, sz)\<in>set ICON_SIZES.
              files w' (icon_path folder) =
                Some \<lparr>format = ''PNG'',
                      picture = resize (working (picture f)) (sz, sz) LANCZOS\<rparr>) \<and>
           (\<forall>q. q \<notin> icon_path ` fst ` set ICON_SIZES \<longrightarrow> files w' q = files w q)"
proof -
  let ?w0 = "w\<lparr>stdout := stdout w @ [Msg_reading p]\<rparr>"
  let ?wk = "working (picture f)"
  obtain r1 w1 where t: "try_block e p ?w0 = (r1, w1)"
    by (cases "try_block e p ?w0")
  from present have "files ?w0 p = Some f" by simp
  from this t show ?thesis
  proof (cases rule: try_block_run)
    case (early cls msg cs rest ls)
    with ok show ?thesis by simp
  next
    case (looped w2 r0 w3 ls)
    from write_icons_no_fault [OF ok, of ?wk ICON_SIZES w2] looped(1)
    have r0: "r0 = Inr ()"
      and c3: "calls w3 = calls w2 @ concat (map (round_calls ?wk) ICON_SIZES)"
      by auto
    from write_icons_done [OF icon_paths_distinct looped(1)] r0
    have f3: "\<forall>(folder, sz)\<in>set ICON_SIZES.
                files w3 (icon_path folder) =
                  Some \<lparr>format = ''PNG'', picture = resize ?wk (sz, sz) LANCZOS\<rparr>"
      by auto
    have fr: "\<forall>q. q \<notin> icon_path ` fst ` set ICON_SIZES \<longrightarrow> files w3 q = files w q"
      using write_icons_files [OF looped(1)] looped(4) by simp
    from looped(8) r0 have r1: "r1 = Inr ()"
      and w1: "w1 = w3\<lparr>stdout := stdout w3 @ [Msg_all_done, Msg_saved_to BASE_DIR]\<rparr>"
      by simp_all
    have "generate_icons e p w = (Inr (), w1)"
      using t r1 by (simp add: generate_icons_unfold)
    moreover have "calls w1 = calls w @ Open p # prep_calls (picture f) @
             concat (map (round_calls ?wk) ICON_SIZES)"
      using w1 c3 looped(2) by simp
    moreover have "files w1 = files w3"
      using w1 by simp
    ultimately show ?thesis
      using f3 fr by auto
  qed
qed

text \<open>What the module run as a program adds to a run of \<open>generate_icons\<close>: lines only.\<close>

lemma script_frame:
  assumes "script e argv w = (r, w')"
  obtains (stopped) "calls w' = calls w" "files w' = files w" "dirs w' = dirs w"
  | (ran) p v r1 v' where "generate_icons e p v = (r1, v')"
      "calls v = calls w" "files v = files w" "dirs v = dirs w"
      "calls w' = calls v'" "files w' = files v'" "dirs w' = dirs v'"
proof (cases "pil_import e")
  case (Some x)
  obtain cls msg where "x = (cls, msg)" by (cases x)
  with Some assms have "w' = w"
    by (simp add: script_no_import)
  then show ?thesis by (intro stopped) simp_all
next
  case None
  let ?p = "if 1 < length argv then argv ! 1 else ''icon.png''"
  let ?v = "w\<lparr>stdout := stdout w @ [Msg_rule, Msg_title, Msg_rule, Msg_blank] @
                  (if 1 < length argv then []
                   else [Msg_using_default ''icon.png'', Msg_usage, Msg_blank])\<rparr>"
  obtain r1 v' where g: "generate_icons e ?p ?v = (r1, v')"
    by (cases "generate_icons e ?p ?v")
  from assms have "calls w' = calls v' \<and> files w' = files v' \<and> dirs w' = dirs v'"
    unfolding script_unfold [OF None] g by (cases r1) auto
  with g show ?thesis
    by (intro ran [of ?p ?v r1 v']) simp_all
qed

text \<open>
  Claim C3. Whatever the input and whatever fails, an image handed to \<^verbatim>\<open>resize\<close> in a
  run of \<open>generate_icons\<close> is square and in mode \<^verbatim>\<open>RGBA\<close>, which has an alpha band.
\<close>

theorem resize_input_square_alpha:
  assumes "generate_icons e p w = (r, w')"
    and "Resize img sz flt \<in> set (new_calls w w')"
  shows "fst (size_px img) = snd (size_px img) \<and> mode img = ''RGBA'' \<and>
         alpha_capable (mode img)"
proof (cases "files w p")
  case None
  with generate_icons_calls(1) [OF assms(1)] have "new_calls w w' = [Open p]"
    by (auto simp: new_calls_def)
  with assms(2) show ?thesis by simp
next
  case (Some f)
  from generate_icons_call_cases [OF assms(1) Some assms(2)]
  have "img = working (picture f)" by auto
  then show ?thesis
    by (simp add: working_square_rgba alpha_capable_def)
qed

theorem resize_input_square_alpha_witness:
  "generate_icons env_ok ''logo.png'' world_ex =
     (fst (generate_icons env_ok ''logo.png'' world_ex),
      snd (generate_icons env_ok ''logo.png'' world_ex)) \<and>
   Resize (working logo) (192, 192) LANCZOS
     \<in> set (new_calls world_ex (snd (generate_icons env_ok ''logo.png'' world_ex))) \<and>
   size_px (working logo) = (800, 800) \<and> mode (working logo) = ''RGBA'' \<and>
   alpha_capable (mode (working logo))"
proof -
  let ?w' = "snd (generate_icons env_ok ''logo.png'' world_ex)"
  have run: "generate_icons env_ok ''logo.png'' world_ex =
               (fst (generate_icons env_ok ''logo.png'' world_ex), ?w')"
    by simp
  have "files world_ex ''logo.png'' = Some \<lparr>format = ''JPEG'', picture = logo\<rparr>"
    and "\<forall>c. fault env_ok c = None"
    by (simp_all add: world_ex_def env_ok_def)
  from generate_icons_no_fault [OF this]
  have "new_calls world_ex ?w' =
          Open ''logo.png'' # prep_calls logo @ concat (map (round_calls (working logo)) ICON_SIZES)"
    by (auto simp: new_calls_def)
  then have mem: "Resize (working logo) (192, 192) LANCZOS \<in> set (new_calls world_ex ?w')"
    by (simp add: ICON_SIZES_def round_calls_def)
  from resize_input_square_alpha [OF run mem] mem
  show ?thesis
    by (simp add: working_size logo_def alpha_capable_def)
qed


lemma crop_fields:
  "mode (crop img bx) = mode img"
  "pixels (crop img bx) = CropPx (pixels img) bx"
  by (simp_all add: crop_def split: prod.splits)

text \<open>
  Claim C9. In a run of \<open>generate_icons\<close> on a loaded image every \<^verbatim>\<open>resize\<close> is applied
  to one and the same image, the one lines 37 to 53 leave in \<^verbatim>\<open>img\<close>; its pixel data
  comes from the loaded data by at most one crop and one conversion, never by a
  resize; and every image saved is a single resize of it.
\<close>

theorem resizes_share_source:
  assumes "files w p = Some f" and "generate_icons e p w = (r, w')"
  shows "(\<forall>img sz flt. Resize img sz flt \<in> set (new_calls w w') \<longrightarrow>
            img = working (picture f)) \<and>
         (\<forall>img q fmt. Save img q fmt \<in> set (new_calls w w') \<longrightarrow>
            (\<exists>sz. img = resize (working (picture f)) (sz, sz) LANCZOS)) \<and>
         pixels (working (picture f)) \<in>
           (let px = pixels (picture f);
                bx = centre_box (fst (size_px (picture f))) (snd (size_px (picture f)))
            in {px, CropPx px bx, ConvertPx px ''RGBA'', ConvertPx (CropPx px bx) ''RGBA''})"
proof -
  have "img = working (picture f)" if "Resize img sz flt \<in> set (new_calls w w')"
    for img sz flt
    using generate_icons_call_cases [OF assms(2,1) that] by auto
  moreover have "\<exists>sz. img = resize (working (picture f)) (sz, sz) LANCZOS"
    if "Save img q fmt \<in> set (new_calls w w')" for img q fmt
    using generate_icons_call_cases [OF assms(2,1) that] by auto
  moreover have "pixels (working (picture f)) \<in>
           (let px = pixels (picture f);
                bx = centre_box (fst (size_px (picture f))) (snd (size_px (picture f)))
            in {px, CropPx px bx, ConvertPx px ''RGBA'', ConvertPx (CropPx px bx) ''RGBA''})"
    by (cases "size_px (picture f)")
      (simp add: working_def squared_def convert_def crop_fields Let_def)
  ultimately show ?thesis by blast
qed

theorem resizes_share_source_witness:
  "files world_ex ''logo.png'' = Some \<lparr>format = ''JPEG'', picture = logo\<rparr> \<and>
   Resize (working logo) (48, 48) LANCZOS
     \<in> set (new_calls world_ex (snd (generate_icons env_ok ''logo.png'' world_ex))) \<and>
   Resize (working logo) (192, 192) LANCZOS
     \<in> set (new_calls world_ex (snd (generate_icons env_ok ''logo.png'' world_ex))) \<and>
   Save (resize (working logo) (192, 192) LANCZOS) (icon_path ''mipmap-xxxhdpi'') ''PNG''
     \<in> set (new_calls world_ex (snd (generate_icons env_ok ''logo.png'' world_ex))) \<and>
   pixels (working logo) = ConvertPx (CropPx (Original 0) (100, 0, 900, 800)) ''RGBA''"
proof -
  let ?w' = "snd (generate_icons env_ok ''logo.png'' world_ex)"
  have present: "files world_ex ''logo.png'' = Some \<lparr>format = ''JPEG'', picture = logo\<rparr>"
    and ok: "\<forall>c. fault env_ok c = None"
    by (simp_all add: world_ex_def env_ok_def)
  from generate_icons_no_fault [OF present ok]
  have "new_calls world_ex ?w' =
          Open ''logo.png'' # prep_calls logo @ concat (map (round_calls (working logo)) ICON_SIZES)"
    by (auto simp: new_calls_def)
  then have mem: "Resize (working logo) (48, 48) LANCZOS \<in> set (new_calls world_ex ?w')"
      "Resize (working logo) (192, 192) LANCZOS \<in> set (new_calls world_ex ?w')"
      "Save (resize (working logo) (192, 192) LANCZOS) (icon_path ''mipmap-xxxhdpi'') ''PNG''
         \<in> set (new_calls world_ex ?w')"
    by (simp_all add: ICON_SIZES_def round_calls_def)
  have px: "pixels (working logo) = ConvertPx (CropPx (Original 0) (100, 0, 900, 800)) ''RGBA''"
    by (simp add: working_def squared_def convert_def crop_def centre_box_def logo_def)
  have run: "generate_icons env_ok ''logo.png'' world_ex =
               (fst (generate_icons env_ok ''logo.png'' world_ex), ?w')"
    by simp
  from resizes_share_source [OF present run] present mem px
  show ?thesis by simp
qed

lemma script_no_fault:
  assumes "pil_import e = None" and "\<forall>c. fault e c = None"
    and "p = (if 1 < length argv then argv ! 1 else ''icon.png'')"
    and "files w p = Some f"
  shows "\<exists>w'. script e argv w = (Inr (), w') \<and>
           calls w' = calls w @ Open p # prep_calls (picture f) @
             concat (map (round_calls (working (picture f))) ICON_SIZES) \<and>
           (\<forall>(folder, sz)\<in>set ICON_SIZES.
              files w' (icon_path folder) =
                Some \<lparr>format = ''PNG'',
                      picture = resize (working (picture f)) (sz, sz) LANCZOS\<rparr>)"
proof -
  let ?v = "w\<lparr>stdout := stdout w @ [Msg_rule, Msg_title, Msg_rule, Msg_blank] @
                  (if 1 < length argv then []
                   else [Msg_using_default ''icon.png'', Msg_usage, Msg_blank])\<rparr>"
  from assms(4) have "files ?v p = Some f" by simp
  from generate_icons_no_fault [OF this assms(2)] obtain v' where
    v': "generate_icons e p ?v = (Inr (), v')"
      "calls v' = calls ?v @ Open p # prep_calls (picture f) @
             concat (map (round_calls (working (picture f))) ICON_SIZES)"
      "\<forall>(folder, sz)\<in>set ICON_SIZES.
              files v' (icon_path folder) =
                Some \<lparr>format = ''PNG'',
                      picture = resize (working (picture f)) (sz, sz) LANCZOS\<rparr>"
    by blast
  have "script e argv w =
          (Inr (), v'\<lparr>stdout := stdout v' @
                        [Msg_next_steps, Msg_step1, Msg_step2, Msg_step3]\<rparr>)"
    using v'(1) unfolding script_unfold [OF assms(1)] assms(3) [symmetric] by simp
  then show ?thesis using v'(2,3) by simp
qed

text \<open>
  Claim C10. Whatever the arguments and the environment, every directory the program
  creates is \<open>BASE_DIR\<close> joined with a folder of the size table, every file it saves or
  changes is \<^verbatim>\<open>ic_launcher.png\<close> in such a directory, and \<open>BASE_DIR\<close> is the
  literal of line 21, a relative path.
\<close>

theorem output_paths_fixed:
  assumes "script e argv w = (r, w')"
  shows "(\<forall>d. Makedirs d \<in> set (new_calls w w') \<longrightarrow>
            d \<in> (\<lambda>(folder, sz). join BASE_DIR folder) ` set ICON_SIZES) \<and>
         (\<forall>img q fmt. Save img q fmt \<in> set (new_calls w w') \<longrightarrow>
            q \<in> (\<lambda>(folder, sz). join (join BASE_DIR folder) ''ic_launcher.png'') ` set ICON_SIZES) \<and>
         (\<forall>q. files w' q \<noteq> files w q \<longrightarrow>
            q \<in> (\<lambda>(folder, sz). join (join BASE_DIR folder) ''ic_launcher.png'') ` set ICON_SIZES) \<and>
         BASE_DIR = ''project_guideline/android/java/com/google/research/guideline/res'' \<and>
         take 1 BASE_DIR \<noteq> ''/''"
proof -
  let ?dirs = "(\<lambda>(folder, sz). join BASE_DIR folder) ` set ICON_SIZES"
  let ?paths = "(\<lambda>(folder, sz). join (join BASE_DIR folder) ''ic_launcher.png'') ` set ICON_SIZES"
  have paths: "?paths = icon_path ` fst ` set ICON_SIZES"
    by (auto simp: icon_path_def image_iff split: prod.splits) force+
  have main: "(\<forall>d. Makedirs d \<in> set (new_calls w w') \<longrightarrow> d \<in> ?dirs) \<and>
         (\<forall>img q fmt. Save img q fmt \<in> set (new_calls w w') \<longrightarrow> q \<in> ?paths) \<and>
         (\<forall>q. files w' q \<noteq> files w q \<longrightarrow> q \<in> ?paths)"
    using assms
  proof (cases rule: script_frame)
    case stopped
    then show ?thesis by (simp add: new_calls_def)
  next
    case (ran p v r1 v')
    have nc: "new_calls w w' = new_calls v v'"
      using ran(2,5) by (simp add: new_calls_def)
    have fr: "\<forall>q. files w' q \<noteq> files w q \<longrightarrow> q \<in> ?paths"
      using generate_icons_calls(2) [OF ran(1)] ran(3,6) unfolding paths by metis
    show ?thesis
    proof (cases "files v p")
      case None
      with generate_icons_calls(1) [OF ran(1)] have "new_calls v v' = [Open p]"
        by (auto simp: new_calls_def)
      with nc fr show ?thesis by simp
    next
      case (Some f)
      have "d \<in> ?dirs" if "Makedirs d \<in> set (new_calls w w')" for d
        using generate_icons_call_cases [OF ran(1) Some that [unfolded nc]]
        by (auto simp: image_iff split: prod.splits)
      moreover have "q \<in> ?paths" if "Save img q fmt \<in> set (new_calls w w')" for img q fmt
        using generate_icons_call_cases [OF ran(1) Some that [unfolded nc]]
        unfolding paths by auto
      ultimately show ?thesis using fr by blast
    qed
  qed
  then show ?thesis
    by (simp add: BASE_DIR_def)
qed

theorem output_paths_fixed_witness:
  "script env_ok [''generate_icons.py'', ''logo.png''] world_ex =
     (fst (script env_ok [''generate_icons.py'', ''logo.png''] world_ex),
      snd (script env_ok [''generate_icons.py'', ''logo.png''] world_ex)) \<and>
   Makedirs (join BASE_DIR ''mipmap-hdpi'')
     \<in> set (new_calls world_ex (snd (script env_ok [''generate_icons.py'', ''logo.png''] world_ex))) \<and>
   Save (resize (working logo) (72, 72) LANCZOS)
        (join (join BASE_DIR ''mipmap-hdpi'') ''ic_launcher.png'') ''PNG''
     \<in> set (new_calls world_ex (snd (script env_ok [''generate_icons.py'', ''logo.png''] world_ex))) \<and>
   files (snd (script env_ok [''generate_icons.py'', ''logo.png''] world_ex))
       (join (join BASE_DIR ''mipmap-hdpi'') ''ic_launcher.png'')
     \<noteq> files world_ex (join (join BASE_DIR ''mipmap-hdpi'') ''ic_launcher.png'') \<and>
   join (join BASE_DIR ''mipmap-hdpi'') ''ic_launcher.png'' =
     ''project_guideline/android/java/com/google/research/guideline/res/mipmap-hdpi/ic_launcher.png''"
proof -
  let ?argv = "[''generate_icons.py'', ''logo.png'']"
  let ?w' = "snd (script env_ok ?argv world_ex)"
  let ?q = "join (join BASE_DIR ''mipmap-hdpi'') ''ic_launcher.png''"
  have run: "script env_ok ?argv world_ex = (fst (script env_ok ?argv world_ex), ?w')"
    by simp
  have q: "?q = ''project_guideline/android/java/com/google/research/guideline/res/mipmap-hdpi/ic_launcher.png''"
    by (simp add: join_def BASE_DIR_def)
  have "pil_import env_ok = None" and "\<forall>c. fault env_ok c = None"
    and "''logo.png'' = (if 1 < length ?argv then ?argv ! 1 else ''icon.png'')"
    and "files world_ex ''logo.png'' = Some \<lparr>format = ''JPEG'', picture = logo\<rparr>"
    by (simp_all add: world_ex_def env_ok_def)
  from script_no_fault [OF this]
  have cs: "new_calls world_ex ?w' =
          Open ''logo.png'' # prep_calls logo @ concat (map (round_calls (working logo)) ICON_SIZES)"
    and fs: "\<forall>(folder, sz)\<in>set ICON_SIZES.
              files ?w' (icon_path folder) =
                Some \<lparr>format = ''PNG'', picture = resize (working logo) (sz, sz) LANCZOS\<rparr>"
    by (auto simp: new_calls_def)
  from cs have mem: "Makedirs (join BASE_DIR ''mipmap-hdpi'') \<in> set (new_calls world_ex ?w')"
    "Save (resize (working logo) (72, 72) LANCZOS) ?q ''PNG'' \<in> set (new_calls world_ex ?w')"
    by (simp_all add: ICON_SIZES_def round_calls_def icon_path_def)
  from fs have "files ?w' ?q \<noteq> None"
    by (simp add: ICON_SIZES_def icon_path_def)
  moreover have "files world_ex ?q = None"
    unfolding q by (simp add: world_ex_def)
  ultimately have ne: "files ?w' ?q \<noteq> files world_ex ?q"
    by simp
  from output_paths_fixed [OF run] mem ne q
  show ?thesis by simp
qed

text \<open>The calls of a run on a loaded image, in their order.\<close>

lemma generate_icons_order:
  assumes "files w p = Some f" and "generate_icons e p w = (r, w')"
  shows "(\<exists>cs rest. new_calls w w' = Open p # cs \<and> prep_calls (picture f) = cs @ rest \<and>
            fault e (last (Open p # cs)) \<noteq> None) \<or>
         (\<exists>cs. new_calls w w' = Open p # prep_calls (picture f) @ cs)"
proof -
  let ?w0 = "w\<lparr>stdout := stdout w @ [Msg_reading p]\<rparr>"
  from assms(2) obtain r1 w1 where t: "try_block e p ?w0 = (r1, w1)"
    and eq: "calls w' = calls w1"
    by (rule generate_icons_frame)
  from assms(1) have "files ?w0 p = Some f" by simp
  from this t show ?thesis
  proof (cases rule: try_block_run)
    case (early cls msg cs rest ls)
    then have "new_calls w w' = Open p # cs \<and> prep_calls (picture f) = cs @ rest \<and>
            fault e (last (Open p # cs)) \<noteq> None"
      using eq by (simp add: new_calls_def)
    then show ?thesis by blast
  next
    case (looped w2 r0 w3 ls)
    have "calls w1 = calls w3"
      using looped(8) by (cases r0) auto
    moreover from write_icons_calls [OF looped(1)] obtain cs3 where
      "calls w3 = calls w2 @ cs3"
      by blast
    ultimately have "new_calls w w' = Open p # prep_calls (picture f) @ cs3"
      using eq looped(2) by (simp add: new_calls_def)
    then show ?thesis by blast
  qed
qed

text \<open>
  Claim C5, as the code has it. The guard of line 38 looks at the size only and the
  guard of line 52 compares the mode with \<^verbatim>\<open>RGBA\<close>, not with the alpha-capable modes.
  For a loaded image that is square, whatever its mode, \<^verbatim>\<open>crop\<close> is never called. If
  its mode is \<^verbatim>\<open>RGBA\<close>, \<^verbatim>\<open>convert\<close> is not called either and every \<^verbatim>\<open>resize\<close> takes the
  loaded image itself. If its mode is anything else, the other alpha-capable modes
  included, the call after a successful \<^verbatim>\<open>open\<close> is \<^verbatim>\<open>convert\<close> of the loaded image to
  \<^verbatim>\<open>RGBA\<close>, and every \<^verbatim>\<open>resize\<close> takes the converted copy. In both cases, when no
  call fails the remaining calls are the three of each of the five rounds.
\<close>

theorem square_input_steps:
  assumes "files w p = Some f"
    and "fst (size_px (picture f)) = snd (size_px (picture f))"
    and "generate_icons e p w = (r, w')"
  shows "(\<forall>c\<in>set (new_calls w w'). \<forall>img bx. c \<noteq> Crop img bx) \<and>
         (mode (picture f) = ''RGBA'' \<longrightarrow>
            (\<forall>c\<in>set (new_calls w w').
               (\<forall>img m. c \<noteq> Convert img m) \<and>
               (\<forall>img sz flt. c = Resize img sz flt \<longrightarrow> img = picture f)) \<and>
            ((\<forall>c. fault e c = None) \<longrightarrow>
               new_calls w w' = Open p # concat (map (round_calls (picture f)) ICON_SIZES))) \<and>
         (mode (picture f) \<noteq> ''RGBA'' \<longrightarrow>
            (fault e (Open p) = None \<longrightarrow>
               (\<exists>cs. new_calls w w' = Open p # Convert (picture f) ''RGBA'' # cs)) \<and>
            (\<forall>c\<in>set (new_calls w w').
               (\<forall>img m. c = Convert img m \<longrightarrow> img = picture f \<and> m = ''RGBA'') \<and>
               (\<forall>img sz flt. c = Resize img sz flt \<longrightarrow> img = convert (picture f) ''RGBA'')) \<and>
            ((\<forall>c. fault e c = None) \<longrightarrow>
               new_calls w w' =
                 Open p # Convert (picture f) ''RGBA'' #
                 concat (map (round_calls (convert (picture f) ''RGBA'')) ICON_SIZES)))"
proof -
  let ?img = "picture f"
  let ?conv = "if mode ?img \<noteq> ''RGBA'' then [Convert ?img ''RGBA''] else []"
  from assms(2) have sq: "squared ?img = ?img"
    by (cases "size_px ?img") (simp add: squared_def)
  from assms(2) sq have prep: "prep_calls ?img = ?conv"
    by (cases "size_px ?img") (simp add: prep_calls_def)
  from sq have wk: "working ?img = (if mode ?img \<noteq> ''RGBA'' then convert ?img ''RGBA'' else ?img)"
    by (simp add: working_def)
  from generate_icons_calls(1) [OF assms(3)] assms(1) obtain cs where
    cs: "calls w' = calls w @ Open p # cs"
      "set cs \<subseteq> set ?conv \<union> (\<Union>en\<in>set ICON_SIZES. set (round_calls (working ?img) en))"
    by (auto simp: prep)
  have each: "c = Open p \<or> c \<in> set ?conv \<or>
              (\<exists>en. c = Makedirs (join BASE_DIR (fst en)) \<or>
                    c = Resize (working ?img) (snd en, snd en) LANCZOS \<or>
                    c = Save (resize (working ?img) (snd en, snd en) LANCZOS)
                          (icon_path (fst en)) ''PNG'')"
    if "c \<in> set (new_calls w w')" for c
  proof -
    from that cs(1) have "c = Open p \<or> c \<in> set cs"
      by (simp add: new_calls_def)
    with cs(2) consider "c = Open p" | "c \<in> set ?conv"
      | en where "en \<in> set ICON_SIZES" "c \<in> set (round_calls (working ?img) en)"
      by blast
    then show ?thesis
    proof cases
      case 3
      from round_calls_cases [OF 3(2)] show ?thesis by blast
    qed simp_all
  qed
  have no_crop: "\<forall>c\<in>set (new_calls w w'). \<forall>img bx. c \<noteq> Crop img bx"
    using each by (auto split: if_splits)
  have rgba: "(\<forall>c\<in>set (new_calls w w').
               (\<forall>img m. c \<noteq> Convert img m) \<and>
               (\<forall>img sz flt. c = Resize img sz flt \<longrightarrow> img = picture f)) \<and>
            ((\<forall>c. fault e c = None) \<longrightarrow>
               new_calls w w' = Open p # concat (map (round_calls (picture f)) ICON_SIZES))"
    if m: "mode ?img = ''RGBA''"
  proof -
    have "(\<forall>img m. c \<noteq> Convert img m) \<and>
          (\<forall>img sz flt. c = Resize img sz flt \<longrightarrow> img = picture f)"
      if "c \<in> set (new_calls w w')" for c
      using each [OF that] m wk by auto
    moreover have "new_calls w w' = Open p # concat (map (round_calls ?img) ICON_SIZES)"
      if "\<forall>c. fault e c = None"
      using generate_icons_no_fault [OF assms(1) that] assms(3) m
      by (auto simp: new_calls_def wk prep)
    ultimately show ?thesis by blast
  qed
  have other: "(fault e (Open p) = None \<longrightarrow>
               (\<exists>cs. new_calls w w' = Open p # Convert (picture f) ''RGBA'' # cs)) \<and>
            (\<forall>c\<in>set (new_calls w w').
               (\<forall>img m. c = Convert img m \<longrightarrow> img = picture f \<and> m = ''RGBA'') \<and>
               (\<forall>img sz flt. c = Resize img sz flt \<longrightarrow> img = convert (picture f) ''RGBA'')) \<and>
            ((\<forall>c. fault e c = None) \<longrightarrow>
               new_calls w w' =
                 Open p # Convert (picture f) ''RGBA'' #
                 concat (map (round_calls (convert (picture f) ''RGBA'')) ICON_SIZES))"
    if m: "mode ?img \<noteq> ''RGBA''"
  proof -
    from m prep have prep': "prep_calls ?img = [Convert ?img ''RGBA'']" by simp
    from m wk have wk': "working ?img = convert ?img ''RGBA''" by simp
    have "\<exists>cs. new_calls w w' = Open p # Convert ?img ''RGBA'' # cs"
      if ok: "fault e (Open p) = None"
      using generate_icons_order [OF assms(1,3)]
    proof (elim disjE exE conjE)
      fix cs rest
      assume nc: "new_calls w w' = Open p # cs" and pr: "prep_calls ?img = cs @ rest"
        and fl: "fault e (last (Open p # cs)) \<noteq> None"
      from fl ok have "cs \<noteq> []" by auto
      with pr prep' have "cs = [Convert ?img ''RGBA'']"
        by (cases cs) auto
      with nc show ?thesis by simp
    next
      fix cs
      assume "new_calls w w' = Open p # prep_calls ?img @ cs"
      with prep' show ?thesis by simp
    qed
    moreover have "(\<forall>img m. c = Convert img m \<longrightarrow> img = picture f \<and> m = ''RGBA'') \<and>
          (\<forall>img sz flt. c = Resize img sz flt \<longrightarrow> img = convert (picture f) ''RGBA'')"
      if "c \<in> set (new_calls w w')" for c
      using each [OF that] m wk' by auto
    moreover have "new_calls w w' =
                 Open p # Convert ?img ''RGBA'' #
                 concat (map (round_calls (convert ?img ''RGBA'')) ICON_SIZES)"
      if "\<forall>c. fault e c = None"
      using generate_icons_no_fault [OF assms(1) that] assms(3)
      by (auto simp: new_calls_def wk' prep')
    ultimately show ?thesis by blast
  qed
  from no_crop rgba other show ?thesis by blast
qed

theorem square_input_steps_witness:
  "files world_ex ''app.png'' = Some \<lparr>format = ''PNG'', picture = app_icon\<rparr> \<and>
   fst (size_px app_icon) = snd (size_px app_icon) \<and> mode app_icon = ''RGBA'' \<and>
   (\<forall>c. fault env_ok c = None) \<and>
   new_calls world_ex (snd (generate_icons env_ok ''app.png'' world_ex)) =
     Open ''app.png'' # concat (map (round_calls app_icon) ICON_SIZES) \<and>
   Resize app_icon (48, 48) LANCZOS
     \<in> set (new_calls world_ex (snd (generate_icons env_ok ''app.png'' world_ex))) \<and>
   files world_ex ''gray.png'' = Some \<lparr>format = ''PNG'', picture = gray_icon\<rparr> \<and>
   fst (size_px gray_icon) = snd (size_px gray_icon) \<and> mode gray_icon \<noteq> ''RGBA'' \<and>
   new_calls world_ex (snd (generate_icons env_ok ''gray.png'' world_ex)) =
     Open ''gray.png'' # Convert gray_icon ''RGBA'' #
     concat (map (round_calls (convert gray_icon ''RGBA'')) ICON_SIZES) \<and>
   Resize (convert gray_icon ''RGBA'') (48, 48) LANCZOS
     \<in> set (new_calls world_ex (snd (generate_icons env_ok ''gray.png'' world_ex)))"
proof -
  let ?wa = "snd (generate_icons env_ok ''app.png'' world_ex)"
  let ?wg = "snd (generate_icons env_ok ''gray.png'' world_ex)"
  have pa: "files world_ex ''app.png'' = Some \<lparr>format = ''PNG'', picture = app_icon\<rparr>"
    and pg: "files world_ex ''gray.png'' = Some \<lparr>format = ''PNG'', picture = gray_icon\<rparr>"
    and ok: "\<forall>c. fault env_ok c = None"
    and sa: "fst (size_px app_icon) = snd (size_px app_icon)"
    and ma: "mode app_icon = ''RGBA''"
    and sg: "fst (size_px gray_icon) = snd (size_px gray_icon)"
    and mg: "mode gray_icon \<noteq> ''RGBA''"
    by (simp_all add: world_ex_def env_ok_def app_icon_def gray_icon_def)
  have ra: "generate_icons env_ok ''app.png'' world_ex =
              (fst (generate_icons env_ok ''app.png'' world_ex), ?wa)"
    and rg: "generate_icons env_ok ''gray.png'' world_ex =
              (fst (generate_icons env_ok ''gray.png'' world_ex), ?wg)"
    by simp_all
  have pic: "picture \<lparr>format = ''PNG'', picture = app_icon\<rparr> = app_icon"
    "picture \<lparr>format = ''PNG'', picture = gray_icon\<rparr> = gray_icon"
    by simp_all
  note ta = square_input_steps [OF pa _ ra, unfolded pic, OF sa]
  note tg = square_input_steps [OF pg _ rg, unfolded pic, OF sg]
  from ta ma ok
  have na: "new_calls world_ex ?wa =
              Open ''app.png'' # concat (map (round_calls app_icon) ICON_SIZES)"
    by blast
  from tg mg ok
  have ng: "new_calls world_ex ?wg =
              Open ''gray.png'' # Convert gray_icon ''RGBA'' #
              concat (map (round_calls (convert gray_icon ''RGBA'')) ICON_SIZES)"
    by blast
  from na have "Resize app_icon (48, 48) LANCZOS \<in> set (new_calls world_ex ?wa)"
    by (simp add: ICON_SIZES_def round_calls_def)
  moreover from ng have "Resize (convert gray_icon ''RGBA'') (48, 48) LANCZOS
      \<in> set (new_calls world_ex ?wg)"
    by (simp add: ICON_SIZES_def round_calls_def)
  ultimately show ?thesis
    using pa pg ok sa ma sg mg na ng by (intro conjI)
qed

theorem alpha_mode_converted_counterexample:
  "files world_ex ''gray.png'' = Some \<lparr>format = ''PNG'', picture = gray_icon\<rparr> \<and>
   fst (size_px gray_icon) = snd (size_px gray_icon) \<and>
   alpha_capable (mode gray_icon) \<and>
   Convert gray_icon ''RGBA''
     \<in> set (new_calls world_ex (snd (generate_icons env_ok ''gray.png'' world_ex))) \<and>
   Resize (convert gray_icon ''RGBA'') (48, 48) LANCZOS
     \<in> set (new_calls world_ex (snd (generate_icons env_ok ''gray.png'' world_ex))) \<and>
   convert gray_icon ''RGBA'' \<noteq> gray_icon"
proof -
  let ?w' = "snd (generate_icons env_ok ''gray.png'' world_ex)"
  have present: "files world_ex ''gray.png'' = Some \<lparr>format = ''PNG'', picture = gray_icon\<rparr>"
    and ok: "\<forall>c. fault env_ok c = None"
    by (simp_all add: world_ex_def env_ok_def)
  have wk: "working gray_icon = convert gray_icon ''RGBA''"
    and prep: "prep_calls gray_icon = [Convert gray_icon ''RGBA'']"
    by (simp_all add: working_def squared_def prep_calls_def gray_icon_def)
  from generate_icons_no_fault [OF present ok]
  have "new_calls world_ex ?w' =
          Open ''gray.png'' # Convert gray_icon ''RGBA'' #
          concat (map (round_calls (convert gray_icon ''RGBA'')) ICON_SIZES)"
    by (auto simp: new_calls_def wk prep)
  then have "Convert gray_icon ''RGBA'' \<in> set (new_calls world_ex ?w')"
    and "Resize (convert gray_icon ''RGBA'') (48, 48) LANCZOS \<in> set (new_calls world_ex ?w')"
    by (simp_all add: ICON_SIZES_def round_calls_def)
  moreover have "convert gray_icon ''RGBA'' \<noteq> gray_icon"
    by (simp add: convert_def gray_icon_def)
  moreover have "fst (size_px gray_icon) = snd (size_px gray_icon)"
    and "alpha_capable (mode gray_icon)"
    by (simp_all add: gray_icon_def alpha_capable_def)
  ultimately show ?thesis using present by simp
qed

text \<open>
  Claim C2. For a loaded image of \<open>wd\<close> by \<open>ht\<close> pixels with \<open>wd \<noteq> ht\<close>, the call after
  \<^verbatim>\<open>open\<close> is \<^verbatim>\<open>crop\<close> of that image with the box \<open>((wd - m) div 2, (ht - m) div 2,
  (wd - m) div 2 + m, (ht - m) div 2 + m)\<close>, where \<open>m = min wd ht\<close> and \<open>div\<close> is floor
  division, and every image resized afterwards is \<open>m\<close> by \<open>m\<close>. For the 1000 by 800
  image the box is \<open>(100, 0, 900, 800)\<close> and the working square 800 by 800.
\<close>

theorem crop_box_centred:
  assumes "files w p = Some f" and "size_px (picture f) = (wd, ht)" and "wd \<noteq> ht"
    and "fault e (Open p) = None" and "generate_icons e p w = (r, w')"
  shows "\<exists>cs. new_calls w w' =
           Open p #
           Crop (picture f)
             ((wd - min wd ht) div 2, (ht - min wd ht) div 2,
              (wd - min wd ht) div 2 + min wd ht, (ht - min wd ht) div 2 + min wd ht) # cs \<and>
           (\<forall>img sz flt. Resize img sz flt \<in> set cs \<longrightarrow>
              size_px img = (min wd ht, min wd ht))"
proof -
  let ?bx = "((wd - min wd ht) div 2, (ht - min wd ht) div 2,
              (wd - min wd ht) div 2 + min wd ht, (ht - min wd ht) div 2 + min wd ht)"
  from assms(2,3) obtain convc where prep: "prep_calls (picture f) = Crop (picture f) ?bx # convc"
    by (simp add: prep_calls_def centre_box_def Let_def)
  have "\<exists>cs. new_calls w w' = Open p # Crop (picture f) ?bx # cs"
    using generate_icons_order [OF assms(1,5)]
  proof (elim disjE exE conjE)
    fix cs rest
    assume nc: "new_calls w w' = Open p # cs" and pr: "prep_calls (picture f) = cs @ rest"
      and fl: "fault e (last (Open p # cs)) \<noteq> None"
    from fl assms(4) have "cs \<noteq> []" by auto
    with pr prep obtain cs' where "cs = Crop (picture f) ?bx # cs'"
      by (cases cs) auto
    with nc show ?thesis by simp
  next
    fix cs
    assume "new_calls w w' = Open p # prep_calls (picture f) @ cs"
    with prep show ?thesis by simp
  qed
  then obtain cs where cs: "new_calls w w' = Open p # Crop (picture f) ?bx # cs"
    by blast
  have "size_px img = (min wd ht, min wd ht)" if "Resize img sz flt \<in> set cs" for img sz flt
  proof -
    from that cs have "Resize img sz flt \<in> set (new_calls w w')" by simp
    from generate_icons_call_cases [OF assms(5,1) this]
    have "img = working (picture f)" by auto
    with assms(2,3) show ?thesis by (simp add: working_size)
  qed
  with cs show ?thesis by blast
qed

theorem crop_box_centred_witness:
  "files world_ex ''logo.png'' = Some \<lparr>format = ''JPEG'', picture = logo\<rparr> \<and>
   size_px logo = (1000, 800) \<and> (1000::int) \<noteq> 800 \<and> fault env_ok (Open ''logo.png'') = None \<and>
   (\<exists>cs. new_calls world_ex (snd (generate_icons env_ok ''logo.png'' world_ex)) =
      Open ''logo.png'' # Crop logo (100, 0, 900, 800) # cs \<and>
      Resize (working logo) (48, 48) LANCZOS \<in> set cs \<and>
      (\<forall>img sz flt. Resize img sz flt \<in> set cs \<longrightarrow> size_px img = (800, 800)))"
proof -
  let ?w' = "snd (generate_icons env_ok ''logo.png'' world_ex)"
  have present: "files world_ex ''logo.png'' = Some \<lparr>format = ''JPEG'', picture = logo\<rparr>"
    and ok: "\<forall>c. fault env_ok c = None"
    and sz: "size_px (picture \<lparr>format = ''JPEG'', picture = logo\<rparr>) = (1000, 800)"
    by (simp_all add: world_ex_def env_ok_def logo_def)
  have run: "generate_icons env_ok ''logo.png'' world_ex =
               (fst (generate_icons env_ok ''logo.png'' world_ex), ?w')"
    by simp
  from generate_icons_no_fault [OF present ok]
  have nc: "new_calls world_ex ?w' =
          Open ''logo.png'' # prep_calls logo @ concat (map (round_calls (working logo)) ICON_SIZES)"
    by (auto simp: new_calls_def)
  from crop_box_centred [OF present sz _ _ run] ok obtain cs where
    cs: "new_calls world_ex ?w' = Open ''logo.png'' # Crop logo (100, 0, 900, 800) # cs"
      "\<forall>img sz flt. Resize img sz flt \<in> set cs \<longrightarrow> size_px img = (800, 800)"
    by auto
  from nc cs(1) have "Resize (working logo) (48, 48) LANCZOS \<in> set cs"
    by (auto simp: prep_calls_def logo_def ICON_SIZES_def round_calls_def)
  with cs present ok sz show ?thesis by auto
qed

text \<open>
  Claim C1. When the input file is there and no call fails, \<open>generate_icons\<close> returns
  normally; after the \<^verbatim>\<open>open\<close> and the calls of lines 37 to 53 it makes, for the
  entries of the size table in their order, \<^verbatim>\<open>makedirs\<close>, \<^verbatim>\<open>resize\<close> to
  \<open>(size, size)\<close> and \<^verbatim>\<open>save\<close> as \<^verbatim>\<open>PNG\<close>; afterwards each of the five paths holds a
  PNG file whose picture is \<open>size\<close> by \<open>size\<close> in a mode with an alpha band, no other
  path has changed, and the five paths and sizes are the ones listed.
\<close>

theorem five_icons_written:
  assumes "files w p = Some f" and "\<forall>c. fault e c = None"
  shows "\<exists>w'. generate_icons e p w = (Inr (), w') \<and>
           new_calls w w' =
             Open p # prep_calls (picture f) @
             concat (map (\<lambda>(folder, sz).
                       [Makedirs (join BASE_DIR folder),
                        Resize (working (picture f)) (sz, sz) LANCZOS,
                        Save (resize (working (picture f)) (sz, sz) LANCZOS)
                          (join (join BASE_DIR folder) ''ic_launcher.png'') ''PNG''])
                     ICON_SIZES) \<and>
           (\<forall>(folder, sz)\<in>set ICON_SIZES.
              \<exists>pic. files w' (join (join BASE_DIR folder) ''ic_launcher.png'') =
                      Some \<lparr>format = ''PNG'', picture = pic\<rparr> \<and>
                    size_px pic = (sz, sz) \<and> alpha_capable (mode pic)) \<and>
           (\<forall>q. q \<notin> (\<lambda>(folder, sz). join (join BASE_DIR folder) ''ic_launcher.png'')
                       ` set ICON_SIZES \<longrightarrow> files w' q = files w q) \<and>
           map (\<lambda>(folder, sz). (join (join BASE_DIR folder) ''ic_launcher.png'', sz)) ICON_SIZES =
             [(''project_guideline/android/java/com/google/research/guideline/res/mipmap-mdpi/ic_launcher.png'', 48),
              (''project_guideline/android/java/com/google/research/guideline/res/mipmap-hdpi/ic_launcher.png'', 72),
              (''project_guideline/android/java/com/google/research/guideline/res/mipmap-xhdpi/ic_launcher.png'', 96),
              (''project_guideline/android/java/com/google/research/guideline/res/mipmap-xxhdpi/ic_launcher.png'', 144),
              (''project_guideline/android/java/com/google/research/guideline/res/mipmap-xxxhdpi/ic_launcher.png'', 192)]"
proof -
  let ?wk = "working (picture f)"
  from generate_icons_no_fault [OF assms] obtain w' where
    run: "generate_icons e p w = (Inr (), w')"
    and cs: "calls w' = calls w @ Open p # prep_calls (picture f) @
               concat (map (round_calls ?wk) ICON_SIZES)"
    and fs: "\<forall>(folder, sz)\<in>set ICON_SIZES.
               files w' (icon_path folder) =
                 Some \<lparr>format = ''PNG'', picture = resize ?wk (sz, sz) LANCZOS\<rparr>"
    and fr: "\<forall>q. q \<notin> icon_path ` fst ` set ICON_SIZES \<longrightarrow> files w' q = files w q"
    by blast
  have rc: "round_calls ?wk = (\<lambda>(folder, sz).
                       [Makedirs (join BASE_DIR folder),
                        Resize ?wk (sz, sz) LANCZOS,
                        Save (resize ?wk (sz, sz) LANCZOS)
                          (join (join BASE_DIR folder) ''ic_launcher.png'') ''PNG''])"
    by (auto simp: round_calls_def icon_path_def fun_eq_iff)
  have paths: "(\<lambda>(folder, sz). join (join BASE_DIR folder) ''ic_launcher.png'') ` set ICON_SIZES
                 = icon_path ` fst ` set ICON_SIZES"
    by (auto simp: icon_path_def image_iff split: prod.splits) force+
  have "\<exists>pic. files w' (join (join BASE_DIR folder) ''ic_launcher.png'') =
                Some \<lparr>format = ''PNG'', picture = pic\<rparr> \<and>
              size_px pic = (sz, sz) \<and> alpha_capable (mode pic)"
    if "(folder, sz) \<in> set ICON_SIZES" for folder sz
    using fs that
    by (auto simp: icon_path_def resize_def working_square_rgba alpha_capable_def)
  then show ?thesis
    using run cs fr icon_paths
    unfolding paths rc [symmetric]
    by (intro exI [of _ w']) (auto simp: new_calls_def icon_path_def)
qed

theorem five_icons_written_witness:
  "files world_ex ''logo.png'' = Some \<lparr>format = ''JPEG'', picture = logo\<rparr> \<and>
   (\<forall>c. fault env_ok c = None) \<and>
   (\<exists>w'. generate_icons env_ok ''logo.png'' world_ex = (Inr (), w') \<and>
      (\<exists>pic. files w' ''project_guideline/android/java/com/google/research/guideline/res/mipmap-xxxhdpi/ic_launcher.png'' =
                Some \<lparr>format = ''PNG'', picture = pic\<rparr> \<and>
              size_px pic = (192, 192) \<and> alpha_capable (mode pic)) \<and>
      files w' ''logo.png'' = files world_ex ''logo.png'')"
proof -
  have present: "files world_ex ''logo.png'' = Some \<lparr>format = ''JPEG'', picture = logo\<rparr>"
    and ok: "\<forall>c. fault env_ok c = None"
    by (simp_all add: world_ex_def env_ok_def)
  let ?out = "\<lambda>(folder, sz). join (join BASE_DIR folder) ''ic_launcher.png''"
  from five_icons_written [OF present ok] obtain w' where
    run: "generate_icons env_ok ''logo.png'' world_ex = (Inr (), w')"
    and fs: "\<forall>(folder, sz)\<in>set ICON_SIZES.
              \<exists>pic. files w' (join (join BASE_DIR folder) ''ic_launcher.png'') =
                      Some \<lparr>format = ''PNG'', picture = pic\<rparr> \<and>
                    size_px pic = (sz, sz) \<and> alpha_capable (mode pic)"
    and fr: "\<forall>q. q \<notin> ?out ` set ICON_SIZES \<longrightarrow> files w' q = files world_ex q"
    and ps: "map (\<lambda>(folder, sz). (join (join BASE_DIR folder) ''ic_launcher.png'', sz)) ICON_SIZES =
             [(''project_guideline/android/java/com/google/research/guideline/res/mipmap-mdpi/ic_launcher.png'', 48),
              (''project_guideline/android/java/com/google/research/guideline/res/mipmap-hdpi/ic_launcher.png'', 72),
              (''project_guideline/android/java/com/google/research/guideline/res/mipmap-xhdpi/ic_launcher.png'', 96),
              (''project_guideline/android/java/com/google/research/guideline/res/mipmap-xxhdpi/ic_launcher.png'', 144),
              (''project_guideline/android/java/com/google/research/guideline/res/mipmap-xxxhdpi/ic_launcher.png'', 192)]"
    by (elim exE conjE) (rule that)
  have q: "join (join BASE_DIR ''mipmap-xxxhdpi'') ''ic_launcher.png'' =
      ''project_guideline/android/java/com/google/research/guideline/res/mipmap-xxxhdpi/ic_launcher.png''"
    using ps by (simp add: ICON_SIZES_def)
  have "(''mipmap-xxxhdpi'', 192) \<in> set ICON_SIZES"
    by (simp add: ICON_SIZES_def)
  with fs have a: "\<exists>pic. files w' (join (join BASE_DIR ''mipmap-xxxhdpi'') ''ic_launcher.png'') =
                      Some \<lparr>format = ''PNG'', picture = pic\<rparr> \<and>
                    size_px pic = (192, 192) \<and> alpha_capable (mode pic)"
    by blast
  have "?out ` set ICON_SIZES =
          fst ` set (map (\<lambda>(folder, sz). (join (join BASE_DIR folder) ''ic_launcher.png'', sz))
                      ICON_SIZES)"
    by (auto simp: image_iff split: prod.splits) force+
  then have "''logo.png'' \<notin> ?out ` set ICON_SIZES"
    unfolding ps by simp
  with fr have b: "files w' ''logo.png'' = files world_ex ''logo.png''"
    by blast
  from present ok run a b show ?thesis
    unfolding q by blast
qed

subsection \<open>Failures\<close>

text \<open>A run on a path at which there is no regular file.\<close>

lemma generate_icons_missing:
  assumes "files w p = None"
  shows "generate_icons e p w =
           (Inl (SystemExit 1),
            w\<lparr>stdout := stdout w @ Msg_reading p #
                  (case (case fault e (Open p) of Some x \<Rightarrow> x | None \<Rightarrow> open_error w p) of
                     (cls, msg) \<Rightarrow>
                       if cls = FileNotFoundError then [Msg_not_found p, Msg_ensure_exists]
                       else [Msg_error msg]),
              calls := calls w @ [Open p]\<rparr>)"
proof -
  from assms have "files (w\<lparr>stdout := stdout w @ [Msg_reading p]\<rparr>) p = None"
    by simp
  from try_block_missing [OF this, of e] show ?thesis
    by (cases "fault e (Open p)")
      (auto simp: generate_icons_unfold open_error_frame split: prod.splits)
qed

lemma no_slash_not_through_file:
  assumes "CHR ''/'' \<notin> set p"
  shows "\<not> through_file w p"
proof -
  have none: "[take i p. i \<leftarrow> [1..<length p], p ! i = CHR ''/''] = []"
    using assms by (auto simp: concat_eq_Nil_conv in_set_conv_nth)
  show ?thesis
    unfolding through_file_def ancestors_def none by simp
qed

text \<open>
  Claim C4. If there is no regular file at the input path, \<open>generate_icons\<close> leaves
  through \<^verbatim>\<open>sys.exit(1)\<close> after the failed \<^verbatim>\<open>Image.open\<close>, its only call, so no file is
  written and no directory is created; and unless the environment failed the call in
  its own way, the line printed after the one of line 30 names the path: the message of
  line 75 when nothing is at the path, and the message of line 79 with the text of the
  operating system's error when the path is a directory or runs through a file. Run
  as a program with that path as its argument, the process ends with status 1, and files
  and directories are what they were.
\<close>

theorem missing_input_writes_nothing:
  assumes "files w p = None"
  shows "(\<exists>w'. generate_icons e p w = (Inl (SystemExit 1), w') \<and>
            files w' = files w \<and> dirs w' = dirs w \<and> new_calls w w' = [Open p] \<and>
            (fault e (Open p) = None \<longrightarrow>
               new_lines w w' =
                 Msg_reading p #
                 (if through_file w p
                  then [Msg_error (''[Errno 20] Not a directory: '' @ [CHR 0x27] @ p @ [CHR 0x27])]
                  else if p \<in> dirs w
                  then [Msg_error (''[Errno 21] Is a directory: '' @ [CHR 0x27] @ p @ [CHR 0x27])]
                  else [Msg_not_found p, Msg_ensure_exists]))) \<and>
         (pil_import e = None \<and> 1 < length argv \<and> argv ! 1 = p \<longrightarrow>
            (\<exists>w'. script e argv w = (Inl (SystemExit 1), w') \<and>
               exit_status (fst (script e argv w)) = 1 \<and>
               files w' = files w \<and> dirs w' = dirs w \<and>
               new_calls w w' = [Open p] \<and>
               (fault e (Open p) = None \<and> \<not> through_file w p \<and> p \<notin> dirs w \<longrightarrow>
                  new_lines w w' = [Msg_rule, Msg_title, Msg_rule, Msg_blank,
                                    Msg_reading p, Msg_not_found p, Msg_ensure_exists])))"
proof -
  have lines: "fault e (Open p) = None \<Longrightarrow>
      (case (case fault e (Open p) of Some x \<Rightarrow> x | None \<Rightarrow> open_error v p) of
         (cls, msg) \<Rightarrow>
           if cls = FileNotFoundError then [Msg_not_found p, Msg_ensure_exists]
           else [Msg_error msg]) =
      (if through_file v p
       then [Msg_error (''[Errno 20] Not a directory: '' @ [CHR 0x27] @ p @ [CHR 0x27])]
       else if p \<in> dirs v
       then [Msg_error (''[Errno 21] Is a directory: '' @ [CHR 0x27] @ p @ [CHR 0x27])]
       else [Msg_not_found p, Msg_ensure_exists])" for v
    by (simp add: open_error_def)
  have frame: "through_file (w\<lparr>stdout := ls\<rparr>) p = through_file w p" for ls
    by (simp add: through_file_def)
  have a: "\<exists>w'. generate_icons e p w = (Inl (SystemExit 1), w') \<and>
            files w' = files w \<and> dirs w' = dirs w \<and> new_calls w w' = [Open p] \<and>
            (fault e (Open p) = None \<longrightarrow>
               new_lines w w' =
                 Msg_reading p #
                 (if through_file w p
                  then [Msg_error (''[Errno 20] Not a directory: '' @ [CHR 0x27] @ p @ [CHR 0x27])]
                  else if p \<in> dirs w
                  then [Msg_error (''[Errno 21] Is a directory: '' @ [CHR 0x27] @ p @ [CHR 0x27])]
                  else [Msg_not_found p, Msg_ensure_exists]))"
    unfolding generate_icons_missing [OF assms]
    using lines [of w] by (simp add: new_calls_def new_lines_def)
  have b: "\<exists>w'. script e argv w = (Inl (SystemExit 1), w') \<and>
               exit_status (fst (script e argv w)) = 1 \<and>
               files w' = files w \<and> dirs w' = dirs w \<and>
               new_calls w w' = [Open p] \<and>
               (fault e (Open p) = None \<and> \<not> through_file w p \<and> p \<notin> dirs w \<longrightarrow>
                  new_lines w w' = [Msg_rule, Msg_title, Msg_rule, Msg_blank,
                                    Msg_reading p, Msg_not_found p, Msg_ensure_exists])"
    if "pil_import e = None" and "1 < length argv" and "argv ! 1 = p"
  proof -
    let ?v = "w\<lparr>stdout := stdout w @ [Msg_rule, Msg_title, Msg_rule, Msg_blank]\<rparr>"
    let ?tail = "case (case fault e (Open p) of Some x \<Rightarrow> x | None \<Rightarrow> open_error w p) of
                   (cls, msg) \<Rightarrow>
                     if cls = FileNotFoundError then [Msg_not_found p, Msg_ensure_exists]
                     else [Msg_error msg]"
    from assms have "files ?v p = None" by simp
    from generate_icons_missing [OF this, of e]
    have g: "generate_icons e p ?v =
               (Inl (SystemExit 1),
                w\<lparr>stdout := stdout w @ [Msg_rule, Msg_title, Msg_rule, Msg_blank] @
                                Msg_reading p # ?tail,
                  calls := calls w @ [Open p]\<rparr>)"
      by (cases "fault e (Open p)") (simp_all add: open_error_frame)
    have s: "script e argv w =
               (Inl (SystemExit 1),
                w\<lparr>stdout := stdout w @ [Msg_rule, Msg_title, Msg_rule, Msg_blank] @
                                Msg_reading p # ?tail,
                  calls := calls w @ [Open p]\<rparr>)"
      unfolding script_unfold [OF that(1)] using that(2,3) g by simp
    have "?tail = [Msg_not_found p, Msg_ensure_exists]"
      if "fault e (Open p) = None" "\<not> through_file w p" "p \<notin> dirs w"
      using that lines [of w] by simp
    then show ?thesis
      unfolding s by (simp add: new_calls_def new_lines_def)
  qed
  from a b show ?thesis by blast
qed

theorem missing_input_witness:
  "files world_ex ''missing.png'' = None \<and> fault env_ok (Open ''missing.png'') = None \<and>
   \<not> through_file world_ex ''missing.png'' \<and> ''missing.png'' \<notin> dirs world_ex \<and>
   pil_import env_ok = None \<and>
   (\<exists>w'. generate_icons env_ok ''missing.png'' world_ex = (Inl (SystemExit 1), w') \<and>
      files w' = files world_ex \<and> dirs w' = dirs world_ex \<and>
      new_calls world_ex w' = [Open ''missing.png''] \<and>
      new_lines world_ex w' =
        [Msg_reading ''missing.png'', Msg_not_found ''missing.png'', Msg_ensure_exists]) \<and>
   (\<exists>w'. script env_ok [''generate_icons.py'', ''missing.png''] world_ex =
            (Inl (SystemExit 1), w') \<and>
      exit_status (fst (script env_ok [''generate_icons.py'', ''missing.png''] world_ex)) = 1 \<and>
      files w' = files world_ex \<and> dirs w' = dirs world_ex \<and>
      new_calls world_ex w' = [Open ''missing.png''] \<and>
      new_lines world_ex w' = [Msg_rule, Msg_title, Msg_rule, Msg_blank,
                               Msg_reading ''missing.png'', Msg_not_found ''missing.png'',
                               Msg_ensure_exists]) \<and>
   files world_ex ''images'' = None \<and> ''images'' \<in> dirs world_ex \<and>
   (\<exists>w'. generate_icons env_ok ''images'' world_ex = (Inl (SystemExit 1), w') \<and>
      files w' = files world_ex \<and> dirs w' = dirs world_ex \<and>
      new_calls world_ex w' = [Open ''images''] \<and>
      new_lines world_ex w' =
        [Msg_reading ''images'',
         Msg_error (''[Errno 21] Is a directory: '' @ [CHR 0x27] @ ''images'' @ [CHR 0x27])])"
proof -
  have h: "files world_ex ''missing.png'' = None" "fault env_ok (Open ''missing.png'') = None"
    "''missing.png'' \<notin> dirs world_ex" "pil_import env_ok = None"
    "files world_ex ''images'' = None" "''images'' \<in> dirs world_ex"
    "fault env_ok (Open ''images'') = None"
    by (simp_all add: world_ex_def env_ok_def)
  have t: "\<not> through_file world_ex ''missing.png''" "\<not> through_file world_ex ''images''"
    by (simp_all add: no_slash_not_through_file)
  note m = missing_input_writes_nothing
             [OF h(1), of env_ok "[''generate_icons.py'', ''missing.png'']"]
  note d = missing_input_writes_nothing [OF h(5), of env_ok "[]"]
  from m d h t show ?thesis
    by simp
qed

text \<open>Lines 33 to 53 as equations, for running them on given inputs.\<close>

lemma try_block_eval:
  "try_block e p w =
     (case files w p of
        None \<Rightarrow>
          (Inl (case fault e (Open p) of
                  Some (cls, msg) \<Rightarrow> Exception cls msg
                | None \<Rightarrow> Exception (fst (open_error w p)) (snd (open_error w p))),
           w\<lparr>calls := calls w @ [Open p]\<rparr>)
      | Some f \<Rightarrow>
          (case fault e (Open p) of
             Some (cls, msg) \<Rightarrow> (Inl (Exception cls msg), w\<lparr>calls := calls w @ [Open p]\<rparr>)
           | None \<Rightarrow>
               (case crop_square e (picture f) (w\<lparr>calls := calls w @ [Open p]\<rparr>) of
                  (Inl ex, w1) \<Rightarrow> (Inl ex, w1)
                | (Inr sq, w1) \<Rightarrow>
                    (case to_rgba e sq w1 of
                       (Inl ex, w2) \<Rightarrow> (Inl ex, w2)
                     | (Inr wk, w2) \<Rightarrow>
                         (case write_icons e wk ICON_SIZES w2 of
                            (Inl ex, w3) \<Rightarrow> (Inl ex, w3)
                          | (Inr u, w3) \<Rightarrow>
                              (Inr (), w3\<lparr>stdout := stdout w3 @
                                           [Msg_all_done, Msg_saved_to BASE_DIR]\<rparr>))))))"
proof (cases "files w p")
  case None
  then show ?thesis
    by (simp add: try_block_missing)
next
  case (Some f)
  then show ?thesis
    by (simp add: try_block_unfold)
qed

lemma crop_square_eval:
  "crop_square e img w =
     (case size_px img of (width, height) \<Rightarrow>
        if width \<noteq> height then
          (case fault e (Crop img (centre_box width height)) of
             Some (cls, msg) \<Rightarrow>
               (Inl (Exception cls msg),
                w\<lparr>stdout := stdout w @ [Msg_not_square width height, Msg_will_crop],
                  calls := calls w @ [Crop img (centre_box width height)]\<rparr>)
           | None \<Rightarrow>
               (Inr (crop img (centre_box width height)),
                w\<lparr>stdout := stdout w @ [Msg_not_square width height, Msg_will_crop,
                                         Msg_cropped (min width height)],
                  calls := calls w @ [Crop img (centre_box width height)]\<rparr>))
        else (Inr img, w))"
  by (cases "size_px img")
    (simp add: crop_square_def Image_crop_def centre_box_def Let_def io_bind_def print_def
       lib_call_def io_return_def split: option.splits)

lemma to_rgba_eval:
  "to_rgba e img w =
     (if mode img \<noteq> ''RGBA'' then
        (case fault e (Convert img ''RGBA'') of
           Some (cls, msg) \<Rightarrow>
             (Inl (Exception cls msg), w\<lparr>calls := calls w @ [Convert img ''RGBA'']\<rparr>)
         | None \<Rightarrow>
             (Inr (convert img ''RGBA''), w\<lparr>calls := calls w @ [Convert img ''RGBA'']\<rparr>))
      else (Inr img, w))"
  by (simp add: to_rgba_def Image_convert_def io_bind_def lib_call_def io_return_def
        split: option.splits)

text \<open>The run of the \<^verbatim>\<open>try\<close> body on the 1000 by 800 image when the disk fills up.\<close>

lemma disk_full_run:
  "\<exists>w1. try_block env_disk_full ''logo.png''
           (world_ex\<lparr>stdout := stdout world_ex @ [Msg_reading ''logo.png'']\<rparr>) =
          (Inl (Exception OtherException ''[Errno 28] No space left on device''), w1) \<and>
        stdout w1 =
          [Msg_reading ''logo.png'', Msg_not_square 1000 800, Msg_will_crop, Msg_cropped 800,
           Msg_generated ''mipmap-mdpi'' 48, Msg_generated ''mipmap-hdpi'' 72]"
  by (simp add: try_block_eval crop_square_eval to_rgba_eval write_icons_Cons io_return_def
        ICON_SIZES_def round_calls_def world_ex_def env_disk_full_def logo_def
        crop_def convert_def resize_def centre_box_def
        del: write_icons.simps(2))

text \<open>
  Claim C7. When the body of the \<^verbatim>\<open>try\<close> statement raises an exception that is not
  \<^verbatim>\<open>FileNotFoundError\<close>, \<open>generate_icons\<close> adds the line of line 79, which carries the
  text of the exception, and leaves through \<^verbatim>\<open>sys.exit(1)\<close>; the handler touches
  nothing else, so the world is the one the failure left: no file that was there is
  gone, and every icon reported as generated before the failure is on disk, a PNG of
  its size.
\<close>

theorem other_exception_reported:
  assumes raised: "try_block e p (w\<lparr>stdout := stdout w @ [Msg_reading p]\<rparr>) =
                     (Inl (Exception cls msg), w1)"
    and other: "cls \<noteq> FileNotFoundError"
  shows "\<exists>w'. generate_icons e p w = (Inl (SystemExit 1), w') \<and>
           w' = w1\<lparr>stdout := stdout w1 @ [Msg_error msg]\<rparr> \<and>
           exit_status (fst (generate_icons e p w)) = 1 \<and>
           (\<forall>q. files w q \<noteq> None \<longrightarrow> files w' q \<noteq> None) \<and>
           (\<forall>folder sz. Msg_generated folder sz \<in> set (new_lines w w') \<longrightarrow>
              (\<exists>pic. files w' (icon_path folder) = Some \<lparr>format = ''PNG'', picture = pic\<rparr> \<and>
                     size_px pic = (sz, sz)))"
proof -
  let ?w0 = "w\<lparr>stdout := stdout w @ [Msg_reading p]\<rparr>"
  let ?w' = "w1\<lparr>stdout := stdout w1 @ [Msg_error msg]\<rparr>"
  have gen: "generate_icons e p w = (Inl (SystemExit 1), ?w')"
    using raised other by (simp add: generate_icons_unfold)
  have "(\<forall>q. files w q \<noteq> None \<longrightarrow> files w1 q \<noteq> None) \<and>
        (\<exists>ls. stdout w1 = stdout w @ Msg_reading p # ls \<and>
           (\<forall>folder sz. Msg_generated folder sz \<in> set ls \<longrightarrow>
              (\<exists>pic. files w1 (icon_path folder) = Some \<lparr>format = ''PNG'', picture = pic\<rparr> \<and>
                     size_px pic = (sz, sz))))"
  proof (cases "files ?w0 p")
    case None
    from try_block_missing [OF None, of e] raised
    have "w1 = ?w0\<lparr>calls := calls ?w0 @ [Open p]\<rparr>" by simp
    then show ?thesis by simp
  next
    case (Some f)
    from Some raised show ?thesis
    proof (cases rule: try_block_run)
    case (early cls' msg' cs rest ls)
    then show ?thesis by auto
  next
    case (looped w2 r0 w3 ls)
    from looped(8) have r0: "r0 = Inl (Exception cls msg)" and w13: "w1 = w3"
      by (cases r0; simp)+
    from write_icons_done [OF icon_paths_distinct looped(1)] obtain k where
      out: "stdout w3 = stdout w2 @ map (\<lambda>(folder, sz). Msg_generated folder sz) (take k ICON_SIZES)"
      and fs: "\<forall>(folder, sz)\<in>set (take k ICON_SIZES).
                 files w3 (icon_path folder) =
                   Some \<lparr>format = ''PNG'',
                         picture = resize (working (picture f)) (sz, sz) LANCZOS\<rparr>"
      by blast
    let ?gen = "map (\<lambda>(folder, sz). Msg_generated folder sz) (take k ICON_SIZES)"
    have a: "stdout w1 = stdout w @ Msg_reading p # (ls @ ?gen)"
      using out looped(6) w13 by simp
    have b: "\<exists>pic. files w1 (icon_path folder) = Some \<lparr>format = ''PNG'', picture = pic\<rparr> \<and>
                     size_px pic = (sz, sz)"
      if "Msg_generated folder sz \<in> set (ls @ ?gen)" for folder sz
    proof -
      from that looped(7) have "(folder, sz) \<in> set (take k ICON_SIZES)"
        by auto
      with fs show ?thesis
        unfolding w13 by (auto simp: resize_def)
    qed
    have c: "\<forall>q. files w q \<noteq> None \<longrightarrow> files w1 q \<noteq> None"
      using write_icons_dom [OF looped(1)] looped(4) w13 by simp
    from a b c show ?thesis by blast
  qed
  qed
  then obtain ls where keep: "\<forall>q. files w q \<noteq> None \<longrightarrow> files w1 q \<noteq> None"
    and ls: "stdout w1 = stdout w @ Msg_reading p # ls"
    and on_disk: "\<forall>folder sz. Msg_generated folder sz \<in> set ls \<longrightarrow>
              (\<exists>pic. files w1 (icon_path folder) = Some \<lparr>format = ''PNG'', picture = pic\<rparr> \<and>
                     size_px pic = (sz, sz))"
    by blast
  have nl: "new_lines w ?w' = Msg_reading p # ls @ [Msg_error msg]"
    using ls by (simp add: new_lines_def)
  show ?thesis
    using gen keep on_disk nl by auto
qed

theorem other_exception_reported_witness:
  "OtherException \<noteq> FileNotFoundError \<and>
   (\<exists>w'. generate_icons env_disk_full ''logo.png'' world_ex = (Inl (SystemExit 1), w') \<and>
      exit_status (fst (generate_icons env_disk_full ''logo.png'' world_ex)) = 1 \<and>
      last (stdout w') = Msg_error ''[Errno 28] No space left on device'' \<and>
      Msg_generated ''mipmap-hdpi'' 72 \<in> set (new_lines world_ex w') \<and>
      files w' ''logo.png'' \<noteq> None \<and>
      (\<exists>pic. files w' (icon_path ''mipmap-hdpi'') = Some \<lparr>format = ''PNG'', picture = pic\<rparr> \<and>
             size_px pic = (72, 72)))"
proof -
  let ?msg = "''[Errno 28] No space left on device''"
  from disk_full_run obtain w1 where
    raised: "try_block env_disk_full ''logo.png''
               (world_ex\<lparr>stdout := stdout world_ex @ [Msg_reading ''logo.png'']\<rparr>) =
             (Inl (Exception OtherException ?msg), w1)"
    and out: "stdout w1 =
          [Msg_reading ''logo.png'', Msg_not_square 1000 800, Msg_will_crop, Msg_cropped 800,
           Msg_generated ''mipmap-mdpi'' 48, Msg_generated ''mipmap-hdpi'' 72]"
    by blast
  have other: "OtherException \<noteq> FileNotFoundError" by simp
  from other_exception_reported [OF raised other] obtain w' where
    gen: "generate_icons env_disk_full ''logo.png'' world_ex = (Inl (SystemExit 1), w')"
    and w': "w' = w1\<lparr>stdout := stdout w1 @ [Msg_error ?msg]\<rparr>"
    and st: "exit_status (fst (generate_icons env_disk_full ''logo.png'' world_ex)) = 1"
    and keep: "\<forall>q. files world_ex q \<noteq> None \<longrightarrow> files w' q \<noteq> None"
    and on_disk: "\<forall>folder sz. Msg_generated folder sz \<in> set (new_lines world_ex w') \<longrightarrow>
              (\<exists>pic. files w' (icon_path folder) = Some \<lparr>format = ''PNG'', picture = pic\<rparr> \<and>
                     size_px pic = (sz, sz))"
    by (elim exE conjE) (rule that)
  have lst: "last (stdout w') = Msg_error ?msg"
    using w' by simp
  have mem: "Msg_generated ''mipmap-hdpi'' 72 \<in> set (new_lines world_ex w')"
    using w' out by (simp add: new_lines_def world_ex_def)
  have "files world_ex ''logo.png'' \<noteq> None"
    by (simp add: world_ex_def)
  with keep have kept: "files w' ''logo.png'' \<noteq> None" by blast
  from on_disk mem have "\<exists>pic. files w' (icon_path ''mipmap-hdpi'') =
      Some \<lparr>format = ''PNG'', picture = pic\<rparr> \<and> size_px pic = (72, 72)"
    by blast
  with other gen st lst mem kept show ?thesis by blast
qed

text \<open>
  Claim C6, on an interpreter without Pillow. The import of line 9 raises when the
  module is loaded, before \<open>main\<close> is called: the process ends with the uncaught
  \<^verbatim>\<open>ImportError\<close> and status 1, and nothing is printed, the install hint of line 103
  included. \<open>main\<close> alone, were it reached, would print the hint and exit with 1.
\<close>

theorem missing_pillow_no_hint:
  "script env_no_pil [''generate_icons.py'', ''logo.png''] world_ex =
     (Inl (Exception ImportError (''No module named '' @ [CHR 0x27] @ ''PIL'' @ [CHR 0x27])),
      world_ex) \<and>
   exit_status (fst (script env_no_pil [''generate_icons.py'', ''logo.png''] world_ex)) = 1 \<and>
   Msg_install_hint
     \<notin> set (stdout (snd (script env_no_pil [''generate_icons.py'', ''logo.png''] world_ex))) \<and>
   main env_no_pil [''generate_icons.py'', ''logo.png''] world_ex =
     (Inl (SystemExit 1),
      world_ex\<lparr>stdout := [Msg_rule, Msg_title, Msg_rule, Msg_blank,
                           Msg_need_pillow, Msg_install_hint]\<rparr>)"
proof -
  have imp: "pil_import env_no_pil =
               Some (ImportError, ''No module named '' @ [CHR 0x27] @ ''PIL'' @ [CHR 0x27])"
    by (simp add: env_no_pil_def)
  have s: "script env_no_pil [''generate_icons.py'', ''logo.png''] world_ex =
     (Inl (Exception ImportError (''No module named '' @ [CHR 0x27] @ ''PIL'' @ [CHR 0x27])),
      world_ex)"
    by (rule script_no_import [OF imp])
  have m: "main env_no_pil [''generate_icons.py'', ''logo.png''] world_ex =
     (Inl (SystemExit 1),
      world_ex\<lparr>stdout := [Msg_rule, Msg_title, Msg_rule, Msg_blank,
                           Msg_need_pillow, Msg_install_hint]\<rparr>)"
    by (simp add: main_def io_bind_print io_bind_return io_bind_def [of "try_except m h" for m h]
          try_except_def import_PIL_def imp io_raise_def sys_exit_def world_ex_def)
  have "stdout world_ex = []"
    by (simp add: world_ex_def)
  with s m show ?thesis by simp
qed

text \<open>
  Claim C8. With the library installed and no argument on the command line, the program
  prints the banner and the notice of line 94, which names \<^verbatim>\<open>icon.png\<close>, and runs
  \<open>generate_icons\<close> on \<^verbatim>\<open>icon.png\<close>. When there is no regular file \<^verbatim>\<open>icon.png\<close>, it
  ends with status 1 having written nothing, and unless the environment failed the
  \<^verbatim>\<open>open\<close> in its own way the line after the one of line 30 names \<^verbatim>\<open>icon.png\<close>: the
  message of line 75 when nothing is there, the message of line 79 with the operating
  system's text when \<^verbatim>\<open>icon.png\<close> is a directory.
\<close>

theorem default_input_path:
  assumes "pil_import e = None" and "length argv \<le> 1"
  shows "script e argv w =
           (case generate_icons e ''icon.png''
                   (w\<lparr>stdout := stdout w @
                        [Msg_rule, Msg_title, Msg_rule, Msg_blank,
                         Msg_using_default ''icon.png'', Msg_usage, Msg_blank]\<rparr>) of
              (Inl ex, w1) \<Rightarrow> (Inl ex, w1)
            | (Inr u, w1) \<Rightarrow>
                (Inr (), w1\<lparr>stdout := stdout w1 @
                              [Msg_next_steps, Msg_step1, Msg_step2, Msg_step3]\<rparr>)) \<and>
         (files w ''icon.png'' = None \<longrightarrow>
            (\<exists>w'. script e argv w = (Inl (SystemExit 1), w') \<and>
               exit_status (fst (script e argv w)) = 1 \<and>
               files w' = files w \<and> dirs w' = dirs w \<and>
               new_calls w w' = [Open ''icon.png''] \<and>
               (fault e (Open ''icon.png'') = None \<longrightarrow>
                  new_lines w w' =
                    [Msg_rule, Msg_title, Msg_rule, Msg_blank,
                     Msg_using_default ''icon.png'', Msg_usage, Msg_blank,
                     Msg_reading ''icon.png''] @
                    (if ''icon.png'' \<in> dirs w
                     then [Msg_error (''[Errno 21] Is a directory: '' @ [CHR 0x27] @
                                      ''icon.png'' @ [CHR 0x27])]
                     else [Msg_not_found ''icon.png'', Msg_ensure_exists]))))"
proof -
  from assms(2) have no_arg: "\<not> 1 < length argv" by simp
  let ?banner = "[Msg_rule, Msg_title, Msg_rule, Msg_blank,
                  Msg_using_default ''icon.png'', Msg_usage, Msg_blank]"
  let ?v = "w\<lparr>stdout := stdout w @ ?banner\<rparr>"
  have unf: "script e argv w =
           (case generate_icons e ''icon.png'' ?v of
              (Inl ex, w1) \<Rightarrow> (Inl ex, w1)
            | (Inr u, w1) \<Rightarrow>
                (Inr (), w1\<lparr>stdout := stdout w1 @
                              [Msg_next_steps, Msg_step1, Msg_step2, Msg_step3]\<rparr>))"
    unfolding script_unfold [OF assms(1)] using no_arg by simp
  moreover have "\<exists>w'. script e argv w = (Inl (SystemExit 1), w') \<and>
               exit_status (fst (script e argv w)) = 1 \<and>
               files w' = files w \<and> dirs w' = dirs w \<and>
               new_calls w w' = [Open ''icon.png''] \<and>
               (fault e (Open ''icon.png'') = None \<longrightarrow>
                  new_lines w w' =
                    [Msg_rule, Msg_title, Msg_rule, Msg_blank,
                     Msg_using_default ''icon.png'', Msg_usage, Msg_blank,
                     Msg_reading ''icon.png''] @
                    (if ''icon.png'' \<in> dirs w
                     then [Msg_error (''[Errno 21] Is a directory: '' @ [CHR 0x27] @
                                      ''icon.png'' @ [CHR 0x27])]
                     else [Msg_not_found ''icon.png'', Msg_ensure_exists]))"
    if missing: "files w ''icon.png'' = None"
  proof -
    let ?tail = "case (case fault e (Open ''icon.png'') of
                         Some x \<Rightarrow> x | None \<Rightarrow> open_error w ''icon.png'') of
                   (cls, msg) \<Rightarrow>
                     if cls = FileNotFoundError
                     then [Msg_not_found ''icon.png'', Msg_ensure_exists]
                     else [Msg_error msg]"
    from missing have "files ?v ''icon.png'' = None" by simp
    from generate_icons_missing [OF this, of e]
    have g: "generate_icons e ''icon.png'' ?v =
               (Inl (SystemExit 1),
                w\<lparr>stdout := stdout w @ ?banner @ Msg_reading ''icon.png'' # ?tail,
                  calls := calls w @ [Open ''icon.png'']\<rparr>)"
      by (cases "fault e (Open ''icon.png'')") (simp_all add: open_error_frame)
    have s: "script e argv w =
               (Inl (SystemExit 1),
                w\<lparr>stdout := stdout w @ ?banner @ Msg_reading ''icon.png'' # ?tail,
                  calls := calls w @ [Open ''icon.png'']\<rparr>)"
      unfolding unf g by simp
    have nt: "\<not> through_file w ''icon.png''"
      by (rule no_slash_not_through_file) simp
    have "?tail = (if ''icon.png'' \<in> dirs w
                     then [Msg_error (''[Errno 21] Is a directory: '' @ [CHR 0x27] @
                                      ''icon.png'' @ [CHR 0x27])]
                     else [Msg_not_found ''icon.png'', Msg_ensure_exists])"
      if "fault e (Open ''icon.png'') = None"
      using that nt by (simp add: open_error_def)
    then show ?thesis
      unfolding s by (simp add: new_calls_def new_lines_def)
  qed
  ultimately show ?thesis by blast
qed

theorem default_input_path_witness:
  "pil_import env_ok = None \<and> length [''generate_icons.py''] \<le> 1 \<and>
   files world_ex ''icon.png'' = None \<and> fault env_ok (Open ''icon.png'') = None \<and>
   ''icon.png'' \<notin> dirs world_ex \<and>
   (\<exists>w'. script env_ok [''generate_icons.py''] world_ex = (Inl (SystemExit 1), w') \<and>
      exit_status (fst (script env_ok [''generate_icons.py''] world_ex)) = 1 \<and>
      files w' = files world_ex \<and> dirs w' = dirs world_ex \<and>
      new_calls world_ex w' = [Open ''icon.png''] \<and>
      new_lines world_ex w' =
        [Msg_rule, Msg_title, Msg_rule, Msg_blank,
         Msg_using_default ''icon.png'', Msg_usage, Msg_blank,
         Msg_reading ''icon.png'', Msg_not_found ''icon.png'', Msg_ensure_exists])"
proof -
  have a: "pil_import env_ok = None" and b: "length [''generate_icons.py''] \<le> 1"
    and c: "files world_ex ''icon.png'' = None"
    and d: "fault env_ok (Open ''icon.png'') = None" "''icon.png'' \<notin> dirs world_ex"
    by (simp_all add: env_ok_def world_ex_def)
  note run = default_input_path [OF a b, of world_ex, THEN conjunct2, THEN mp, OF c]
  from run a b c d show ?thesis
    by simp
qed

end
